theory Spec2Isabelle
  imports Main "HOL-Library.Sublist" "HOL-Library.Multiset"
begin

section \<open>JavaScript values used by the analysers\<close>

text \<open>
  Strings are character lists. \<open>String.prototype.startsWith\<close> and \<open>endsWith\<close> are
  \<^const>\<open>prefix\<close> and \<^const>\<open>suffix\<close> with the arguments swapped;
  \<open>includes\<close>, \<open>split('/')\<close>, \<open>join('/')\<close>, \<open>indexOf\<close> and \<open>slice\<close> are written
  out below.
\<close>

fun str_includes :: "string \<Rightarrow> string \<Rightarrow> bool" where
  "str_includes [] needle = (needle = [])"
| "str_includes (c # cs) needle = (prefix needle (c # cs) \<or> str_includes cs needle)"

fun split_slash :: "string \<Rightarrow> string list" where
  "split_slash [] = [[]]"
| "split_slash (c # cs) =
     (if c = CHR ''/'' then [] # split_slash cs
      else (case split_slash cs of
              [] \<Rightarrow> [[c]]
            | seg # segs \<Rightarrow> (c # seg) # segs))"

fun join_slash :: "string list \<Rightarrow> string" where
  "join_slash [] = []"
| "join_slash [s] = s"
| "join_slash (s # t # ss) = s @ ''/'' @ join_slash (t # ss)"

text \<open>\<open>Array.prototype.indexOf\<close>: the first index, or \<open>-1\<close>.\<close>

fun indexOf :: "'a list \<Rightarrow> 'a \<Rightarrow> int" where
  "indexOf [] x = -1"
| "indexOf (y # ys) x =
     (if y = x then 0
      else (let i = indexOf ys x in if i < 0 then -1 else i + 1))"

text \<open>\<open>Array.prototype.slice(start)\<close>: a negative start counts from the end.\<close>

definition slice :: "'a list \<Rightarrow> int \<Rightarrow> 'a list" where
  "slice xs start =
     (if start < 0 then drop (nat (int (length xs) + start)) xs
      else drop (nat start) xs)"

text \<open>\<open>[...new Set(xs)]\<close>: the first occurrence of every element, in order.\<close>

fun uniq :: "'a list \<Rightarrow> 'a list \<Rightarrow> 'a list" where
  "uniq seen [] = []"
| "uniq seen (x # xs) = (if x \<in> set seen then uniq seen xs else x # uniq (seen @ [x]) xs)"

text \<open>ASCII lower case, for the regular expressions with the \<open>i\<close> flag.\<close>

definition lower_char :: "char \<Rightarrow> char" where
  "lower_char c =
     (let n = (of_char c :: nat) in if 65 \<le> n \<and> n \<le> 90 then char_of (n + 32) else c)"

definition toLowerCase :: "string \<Rightarrow> string" where
  "toLowerCase s = map lower_char s"

section \<open>The collaborators outside the repository\<close>

text \<open>
  The syntax tree of \<open>@babel/parser\<close> as \<open>@babel/traverse\<close> visits it: the nodes in
  traversal order, each with the attributes the visitors of \<open>astParser.ts\<close> read.
\<close>

datatype import_specifier =
    ImportDefaultSpecifier string
  | ImportSpecifier string
  | ImportNamespaceSpecifier string

datatype parent_info =
    ObjectProperty bool
  | MemberExpression bool bool
  | ImportSpecifierParent
  | ImportDefaultSpecifierParent
  | ImportNamespaceSpecifierParent
  | OtherParent

datatype statement_type = ReturnStatement | ThrowStatement | OtherStatement

datatype statement =
  Statement (stmt_type: statement_type) (stmt_loc: "nat option")
    (stmt_blocks: "statement list list")

datatype exported_declaration =
    VariableDeclaration "string option list"
  | FunctionDeclarationD "string option"
  | ClassDeclarationD "string option"
  | OtherDeclaration

datatype export_specifier = ExportSpecifier string | OtherExportSpecifier

datatype node =
    ImportDeclaration "import_specifier list" string "nat option"
  | Identifier string parent_info
  | FunctionDeclaration "string option" "bool option" string "nat option" "statement list"
  | Function "statement list option"
  | VariableDeclarator "string option" "bool option" "nat option"
  | CatchClause nat "nat option"
  | ExportNamedDeclaration "exported_declaration option" "export_specifier list"
  | ExportDefaultDeclaration
  | OtherNode

text \<open>
  \<^item> \<open>ImportDeclaration specifiers source line\<close>;
  \<^item> \<open>Identifier name parent\<close>, where \<open>ObjectProperty k\<close> says whether the identifier
    is the parent's key and \<open>MemberExpression p c\<close> whether it is the parent's property
    and whether the parent is computed;
  \<^item> \<open>FunctionDeclaration id referenced parentType line body\<close>: \<open>referenced\<close> is
    \<open>binding.referenced\<close> of \<open>path.scope.getBinding(id.name)\<close>, \<open>None\<close> when there is
    no binding;
  \<^item> \<open>Function body\<close>: any other function node, its body \<open>None\<close> unless a block;
  \<^item> \<open>VariableDeclarator id referenced line\<close>, \<open>id\<close> present when it is an identifier;
  \<^item> \<open>CatchClause n line\<close>, \<open>n\<close> the number of statements of its body.
  A line is \<open>None\<close> where the node has no \<open>loc\<close>. A statement carries its type, its
  line and the statement lists of the blocks nested in it that are not function bodies
  (the branches of an \<open>if\<close>, the body of a loop, the blocks of a \<open>try\<close>); a function
  nested in it is a node of its own.
\<close>

record package_json =
  dependencies :: "(string \<times> string) list option"
  devDependencies :: "(string \<times> string) list option"
  scripts :: "(string \<times> string) list option"

text \<open>
  The file system, \<open>glob\<close>, Node's \<open>path\<close> module, the parser and \<open>JSON.parse\<close>.
  A read or a parse that throws is \<open>None\<close>.
\<close>

record env =
  fs_readFile :: "string \<Rightarrow> string option"
  fs_existsSync :: "string \<Rightarrow> bool"
  glob :: "string \<Rightarrow> string \<Rightarrow> string list \<Rightarrow> string list"
  path_dirname :: "string \<Rightarrow> string"
  path_resolve :: "string \<Rightarrow> string \<Rightarrow> string"
  path_extname :: "string \<Rightarrow> string"
  path_join :: "string \<Rightarrow> string \<Rightarrow> string"
  path_basename :: "string \<Rightarrow> string \<Rightarrow> string"
  babel_parse :: "string \<Rightarrow> bool \<Rightarrow> node list option"
  JSON_parse :: "string \<Rightarrow> package_json option"

section \<open>utils/astParser.ts\<close>

definition parse :: "env \<Rightarrow> string \<Rightarrow> bool \<Rightarrow> node list option" where
  "parse w code isTypeScript = babel_parse w code isTypeScript"

definition loc_line :: "nat option \<Rightarrow> nat" where
  "loc_line loc = (case loc of None \<Rightarrow> 0 | Some l \<Rightarrow> l)"

record import_entry =
  imp_source :: string
  imp_specifiers :: "string list"
  imp_line :: nat

fun local_name :: "import_specifier \<Rightarrow> string" where
  "local_name (ImportDefaultSpecifier n) = n"
| "local_name (ImportSpecifier n) = n"
| "local_name (ImportNamespaceSpecifier n) = n"

fun visit_ImportDeclaration :: "node \<Rightarrow> import_entry list" where
  "visit_ImportDeclaration (ImportDeclaration specs src loc) =
     [\<lparr>imp_source = src, imp_specifiers = map local_name specs, imp_line = loc_line loc\<rparr>]"
| "visit_ImportDeclaration _ = []"

definition extractImports :: "env \<Rightarrow> string \<Rightarrow> bool \<Rightarrow> import_entry list option" where
  "extractImports w code isTypeScript =
     map_option (\<lambda>ast. concat (map visit_ImportDeclaration ast)) (parse w code isTypeScript)"

fun skipped_parent :: "parent_info \<Rightarrow> bool" where
  "skipped_parent (ObjectProperty is_key) = is_key"
| "skipped_parent (MemberExpression is_property computed) = (is_property \<and> \<not> computed)"
| "skipped_parent ImportSpecifierParent = True"
| "skipped_parent ImportDefaultSpecifierParent = True"
| "skipped_parent ImportNamespaceSpecifierParent = True"
| "skipped_parent OtherParent = False"

fun visit_Identifier :: "node \<Rightarrow> string list" where
  "visit_Identifier (Identifier name parent) = (if skipped_parent parent then [] else [name])"
| "visit_Identifier _ = []"

definition extractIdentifiers :: "env \<Rightarrow> string \<Rightarrow> bool \<Rightarrow> string set option" where
  "extractIdentifiers w code isTypeScript =
     map_option (\<lambda>ast. set (concat (map visit_Identifier ast))) (parse w code isTypeScript)"

text \<open>The loop over \<open>body.body\<close> of \<open>findUnreachableCode\<close>, with its flag \<open>foundReturn\<close>.\<close>

fun unreachable_in :: "bool \<Rightarrow> statement list \<Rightarrow> nat list" where
  "unreachable_in foundReturn [] = []"
| "unreachable_in foundReturn (stmt # rest) =
     (if foundReturn then [loc_line (stmt_loc stmt)] else []) @
     unreachable_in
       (if stmt_type stmt = ReturnStatement \<or> stmt_type stmt = ThrowStatement then True
        else foundReturn)
       rest"

fun visit_Function :: "node \<Rightarrow> nat list" where
  "visit_Function (FunctionDeclaration fid referenced parentType loc body) =
     unreachable_in False body"
| "visit_Function (Function None) = []"
| "visit_Function (Function (Some body)) = unreachable_in False body"
| "visit_Function _ = []"

definition findUnreachableCode :: "env \<Rightarrow> string \<Rightarrow> bool \<Rightarrow> nat list option" where
  "findUnreachableCode w code isTypeScript =
     map_option (\<lambda>ast. concat (map visit_Function ast)) (parse w code isTypeScript)"

fun visit_unused :: "node \<Rightarrow> (string \<times> nat) list" where
  "visit_unused (VariableDeclarator None referenced loc) = []"
| "visit_unused (VariableDeclarator (Some name) referenced loc) =
     (if referenced = Some False then [(name, loc_line loc)] else [])"
| "visit_unused (FunctionDeclaration None referenced parentType loc body) = []"
| "visit_unused (FunctionDeclaration (Some name) referenced parentType loc body) =
     (if referenced = Some False \<and> parentType = ''Program'' then [(name, loc_line loc)]
      else [])"
| "visit_unused _ = []"

definition findUnusedVariables :: "env \<Rightarrow> string \<Rightarrow> bool \<Rightarrow> (string \<times> nat) list option" where
  "findUnusedVariables w code isTypeScript =
     map_option (\<lambda>ast. concat (map visit_unused ast)) (parse w code isTypeScript)"

fun visit_CatchClause :: "node \<Rightarrow> nat list" where
  "visit_CatchClause (CatchClause n loc) = (if n = 0 then [loc_line loc] else [])"
| "visit_CatchClause _ = []"

definition findEmptyCatchBlocks :: "env \<Rightarrow> string \<Rightarrow> bool \<Rightarrow> nat list option" where
  "findEmptyCatchBlocks w code isTypeScript =
     map_option (\<lambda>ast. concat (map visit_CatchClause ast)) (parse w code isTypeScript)"

fun declared_names :: "exported_declaration option \<Rightarrow> string list" where
  "declared_names None = []"
| "declared_names (Some (VariableDeclaration ids)) = concat (map (\<lambda>i. case i of None \<Rightarrow> [] | Some n \<Rightarrow> [n]) ids)"
| "declared_names (Some (FunctionDeclarationD i)) = (case i of None \<Rightarrow> [] | Some n \<Rightarrow> [n])"
| "declared_names (Some (ClassDeclarationD i)) = (case i of None \<Rightarrow> [] | Some n \<Rightarrow> [n])"
| "declared_names (Some OtherDeclaration) = []"

fun exported_name :: "export_specifier \<Rightarrow> string list" where
  "exported_name (ExportSpecifier n) = [n]"
| "exported_name OtherExportSpecifier = []"

fun visit_Export :: "node \<Rightarrow> string list" where
  "visit_Export (ExportNamedDeclaration decl specs) =
     declared_names decl @ concat (map exported_name specs)"
| "visit_Export ExportDefaultDeclaration = [''default'']"
| "visit_Export _ = []"

definition extractExports :: "env \<Rightarrow> string \<Rightarrow> bool \<Rightarrow> string list option" where
  "extractExports w code isTypeScript =
     map_option (\<lambda>ast. concat (map visit_Export ast)) (parse w code isTypeScript)"

section \<open>utils/fileUtils.ts\<close>

definition default_patterns :: "string list" where
  "default_patterns = [''**/*.{js,jsx,ts,tsx,py,go}'']"

definition default_exclude :: "string list" where
  "default_exclude =
     [''node_modules/**'', ''dist/**'', ''build/**'', ''.git/**'', ''coverage/**'']"

definition getFiles :: "env \<Rightarrow> string \<Rightarrow> string list \<Rightarrow> string list \<Rightarrow> string list" where
  "getFiles w targetPath patterns exclude =
     uniq [] (concat (map (\<lambda>pattern. glob w pattern targetPath exclude) patterns))"

definition readFile :: "env \<Rightarrow> string \<Rightarrow> string option" where
  "readFile w filePath = fs_readFile w filePath"

text \<open>The test \<open>/\.tsx?$/\<close> on a file path.\<close>

definition isTypeScriptFile :: "string \<Rightarrow> bool" where
  "isTypeScriptFile filePath = (suffix ''.ts'' filePath \<or> suffix ''.tsx'' filePath)"

definition default_extensions :: "string list" where
  "default_extensions = [''.js'', ''.jsx'', ''.ts'', ''.tsx'', ''.json'']"

definition resolveImportPath :: "env \<Rightarrow> string \<Rightarrow> string \<Rightarrow> string list \<Rightarrow> string option" where
  "resolveImportPath w fromFile importPath extensions =
     (if \<not> prefix ''.'' importPath \<and> \<not> prefix ''/'' importPath then None
      else
        (let dir = path_dirname w fromFile;
             resolved = path_resolve w dir importPath;
             fallback = (if fs_existsSync w resolved then Some resolved else None)
         in if path_extname w resolved = []
            then (case find (fs_existsSync w) (map (\<lambda>ext. resolved @ ext) extensions) of
                    Some withExt \<Rightarrow> Some withExt
                  | None \<Rightarrow>
                      (case find (fs_existsSync w)
                              (map (\<lambda>ext. path_join w resolved (''index'' @ ext)) extensions) of
                         Some indexFile \<Rightarrow> Some indexFile
                       | None \<Rightarrow> fallback))
            else fallback))"

definition getPackageJson :: "env \<Rightarrow> string \<Rightarrow> package_json option" where
  "getPackageJson w dir =
     (case readFile w (path_join w dir ''package.json'') of
        None \<Rightarrow> None
      | Some content \<Rightarrow> JSON_parse w content)"

definition isStaleFilename :: "env \<Rightarrow> string \<Rightarrow> bool" where
  "isStaleFilename w filename =
     (let basename = toLowerCase (path_basename w filename (path_extname w filename))
      in suffix ''.old'' basename \<or> suffix ''.backup'' basename \<or> suffix ''.copy'' basename \<or>
         suffix ''.bak'' basename \<or> suffix ''_old'' basename \<or> suffix ''_backup'' basename \<or>
         suffix ''_copy'' basename \<or>
         prefix ''old-'' basename \<or> prefix ''old_'' basename \<or>
         prefix ''backup-'' basename \<or> prefix ''backup_'' basename \<or>
         str_includes basename ''.deprecated'')"

section \<open>core/graphBuilder.ts\<close>

record DependencyNode =
  node_path :: string
  node_imports :: "string list"
  node_importedBy :: "string list"
  node_exports :: "string list"

text \<open>
  A JavaScript \<open>Map\<close> keeps its keys in insertion order: an association list, where
  \<open>set\<close> replaces the value of a key in place and appends a new key.
\<close>

fun assoc_set :: "('k \<times> 'v) list \<Rightarrow> 'k \<Rightarrow> 'v \<Rightarrow> ('k \<times> 'v) list" where
  "assoc_set [] k v = [(k, v)]"
| "assoc_set ((k', v') # m) k v =
     (if k' = k then (k, v) # m else (k', v') # assoc_set m k v)"

type_synonym nodes = "(string \<times> DependencyNode) list"

definition nodes_get :: "nodes \<Rightarrow> string \<Rightarrow> DependencyNode option" where
  "nodes_get g k = map_of g k"

definition nodes_has :: "nodes \<Rightarrow> string \<Rightarrow> bool" where
  "nodes_has g k = (map_of g k \<noteq> None)"

definition nodes_set :: "nodes \<Rightarrow> string \<Rightarrow> DependencyNode \<Rightarrow> nodes" where
  "nodes_set g k v = assoc_set g k v"

text \<open>
  The node objects are shared between the map and the variables \<open>node\<close> and
  \<open>importedNode\<close>: a write to a field of the object stored under a key is a write in
  the map. Nothing happens when the key has no object.
\<close>

definition update_node :: "nodes \<Rightarrow> string \<Rightarrow> (DependencyNode \<Rightarrow> DependencyNode) \<Rightarrow> nodes" where
  "update_node g k f = map (\<lambda>(k', n). if k' = k then (k', f n) else (k', n)) g"

definition new_GraphBuilder :: nodes where
  "new_GraphBuilder = []"

text \<open>
  The two pushes of \<open>processFile\<close> that record one resolved import: the target goes
  into the importer's \<open>imports\<close> and the importer into the target's \<open>importedBy\<close>.
\<close>

definition add_edge :: "nodes \<Rightarrow> string \<Rightarrow> string \<Rightarrow> nodes" where
  "add_edge g filePath resolvedPath =
     update_node
       (update_node g filePath
          (\<lambda>node. node\<lparr>node_imports := node_imports node @ [resolvedPath]\<rparr>))
       resolvedPath
       (\<lambda>importedNode.
          importedNode\<lparr>node_importedBy := node_importedBy importedNode @ [filePath]\<rparr>)"

text \<open>The body of the loop \<open>for (const imp of imports)\<close> of \<open>processFile\<close>.\<close>

definition process_import :: "env \<Rightarrow> string \<Rightarrow> nodes \<Rightarrow> import_entry \<Rightarrow> nodes" where
  "process_import w filePath g imp =
     (case resolveImportPath w filePath (imp_source imp) default_extensions of
        None \<Rightarrow> g
      | Some resolvedPath \<Rightarrow>
          if resolvedPath \<noteq> [] \<and> nodes_has g resolvedPath
          then add_edge g filePath resolvedPath
          else g)"

definition processFile :: "env \<Rightarrow> nodes \<Rightarrow> string \<Rightarrow> string \<Rightarrow> nodes" where
  "processFile w g filePath rootPath =
     (case nodes_get g filePath of
        None \<Rightarrow> g
      | Some node \<Rightarrow>
          (case readFile w filePath of
             None \<Rightarrow> g
           | Some content \<Rightarrow>
               (let isTypeScript = isTypeScriptFile filePath
                in case extractImports w content isTypeScript of
                     None \<Rightarrow> g
                   | Some imports \<Rightarrow>
                       (let g1 = foldl (process_import w filePath) g imports
                        in case extractExports w content isTypeScript of
                             None \<Rightarrow> g1
                           | Some exports \<Rightarrow>
                               update_node g1 filePath
                                 (\<lambda>node. node\<lparr>node_exports := exports\<rparr>)))))"

definition build :: "env \<Rightarrow> nodes \<Rightarrow> string \<Rightarrow> string list option \<Rightarrow> nodes" where
  "build w g targetPath files =
     (let allFiles = (case files of
                        Some fs \<Rightarrow> fs
                      | None \<Rightarrow> getFiles w targetPath default_patterns default_exclude);
          g0 = foldl (\<lambda>g file.
                 nodes_set g file
                   \<lparr>node_path = file, node_imports = [], node_importedBy = [],
                    node_exports = []\<rparr>) g allFiles
      in foldl (\<lambda>g file. processFile w g file targetPath) g0 allFiles)"

definition getUnusedFiles :: "nodes \<Rightarrow> string list \<Rightarrow> string list" where
  "getUnusedFiles g entryPoints =
     concat (map (\<lambda>(filePath, node).
       if list_ex (\<lambda>entry. str_includes filePath entry) entryPoints then []
       else if node_importedBy node = [] then [filePath]
       else []) g)"

record dfs_state =
  visited :: "string set"
  recStack :: "string set"
  cycles :: "string list list"

text \<open>
  The closure \<open>dfs\<close> of \<open>findCircularDependencies\<close> and its loop over
  \<open>nodeData.imports\<close>. Every call gets its own copy of the path; the sets and the list
  of cycles are shared, so they go in and come out.
\<close>

function dfs :: "nodes \<Rightarrow> string \<Rightarrow> string list \<Rightarrow> dfs_state \<Rightarrow> dfs_state"
  and dfs_imports :: "nodes \<Rightarrow> string list \<Rightarrow> string list \<Rightarrow> dfs_state \<Rightarrow> dfs_state"
where
  "dfs g node path st =
     (let st1 = st\<lparr>visited := insert node (visited st),
                     recStack := insert node (recStack st)\<rparr>;
          path1 = path @ [node];
          st2 = (case nodes_get g node of
                   None \<Rightarrow> st1
                 | Some nodeData \<Rightarrow> dfs_imports g (node_imports nodeData) path1 st1)
      in st2\<lparr>recStack := recStack st2 - {node}\<rparr>)"
| "dfs_imports g [] path st = st"
| "dfs_imports g (imported # rest) path st =
     (if imported \<notin> visited st then dfs_imports g rest path (dfs g imported path st)
      else if imported \<in> recStack st
      then dfs_imports g rest path
             (st\<lparr>cycles := cycles st @ [slice path (indexOf path imported)]\<rparr>)
      else dfs_imports g rest path st)"
  by pat_completeness auto

text \<open>A call never forgets a visited node; the search therefore ends.\<close>

lemma dfs_visited_mono:
  "dfs_dfs_imports_dom (Inl (g, node, path, st)) \<Longrightarrow>
     visited st \<subseteq> visited (dfs g node path st)"
  "dfs_dfs_imports_dom (Inr (g, xs, path, st)) \<Longrightarrow>
     visited st \<subseteq> visited (dfs_imports g xs path st)"
proof (induction g node path st and g xs path st rule: dfs_dfs_imports.pinduct)
  case (1 g node path st)
  then show ?case
    by (auto simp: dfs.psimps Let_def split: option.splits)
next
  case (2 g path st)
  then show ?case by (simp add: dfs_imports.psimps)
next
  case (3 g imported rest path st)
  then show ?case
    by (auto simp: dfs_imports.psimps split: if_splits)
qed

definition universe :: "nodes \<Rightarrow> string set" where
  "universe g = fst ` set g \<union> (\<Union>(k, n) \<in> set g. set (node_imports n))"

lemma finite_universe: "finite (universe g)"
  by (auto simp: universe_def)

lemma imports_in_universe:
  "nodes_get g k = Some n \<Longrightarrow> set (node_imports n) \<subseteq> universe g"
  by (auto simp: nodes_get_def universe_def dest!: map_of_SomeD)

definition dfs_measure ::
  "(nodes \<times> string \<times> string list \<times> dfs_state) + (nodes \<times> string list \<times> string list \<times> dfs_state)
     \<Rightarrow> nat \<times> nat" where
  "dfs_measure x =
     (case x of
        Inl (g, node, path, st) \<Rightarrow>
          (card (universe g - insert node (visited st)),
           (case nodes_get g node of None \<Rightarrow> 0 | Some n \<Rightarrow> Suc (length (node_imports n))))
      | Inr (g, xs, path, st) \<Rightarrow>
          (card ((universe g \<union> set xs) - visited st), length xs))"

termination dfs
proof (relation "inv_image (less_than <*lex*> less_than) dfs_measure")
  show "wf (inv_image (less_than <*lex*> less_than) dfs_measure)"
    by (intro wf_inv_image wf_lex_prod wf_less_than)
next
  fix g node path and st st1 :: dfs_state and path1 nodeData
  assume "nodes_get g node = Some nodeData"
    and "st1 = st\<lparr>visited := insert node (visited st), recStack := insert node (recStack st)\<rparr>"
  then show "(Inr (g, node_imports nodeData, path1, st1), Inl (g, node, path, st))
       \<in> inv_image (less_than <*lex*> less_than) dfs_measure"
    using imports_in_universe[of g node nodeData]
    by (auto simp: dfs_measure_def Un_absorb2 intro!: arg_cong[where f=card])
next
  fix g imported rest path and st :: dfs_state
  assume unvisited: "imported \<notin> visited st"
  have "universe g - insert imported (visited st)
          \<subset> (universe g \<union> set (imported # rest)) - visited st"
    using unvisited by auto
  then have "card (universe g - insert imported (visited st))
          < card ((universe g \<union> set (imported # rest)) - visited st)"
    by (intro psubset_card_mono) (auto simp: finite_universe)
  then show "(Inl (g, imported, path, st), Inr (g, imported # rest, path, st))
       \<in> inv_image (less_than <*lex*> less_than) dfs_measure"
    by (simp add: dfs_measure_def)
next
  fix g imported rest path and st :: dfs_state
  assume "imported \<notin> visited st" and dom: "dfs_dfs_imports_dom (Inl (g, imported, path, st))"
  have "visited st \<subseteq> visited (dfs g imported path st)"
    using dfs_visited_mono(1)[OF dom] .
  then have "(universe g \<union> set rest) - visited (dfs g imported path st)
          \<subseteq> (universe g \<union> set (imported # rest)) - visited st"
    by auto
  then have "card ((universe g \<union> set rest) - visited (dfs g imported path st))
          \<le> card ((universe g \<union> set (imported # rest)) - visited st)"
    by (intro card_mono) (auto simp: finite_universe)
  then show "(Inr (g, rest, path, dfs g imported path st), Inr (g, imported # rest, path, st))
       \<in> inv_image (less_than <*lex*> less_than) dfs_measure"
    by (auto simp: dfs_measure_def)
next
  fix g imported rest path and st :: dfs_state
  have le: "card ((universe g \<union> set rest) - visited st)
          \<le> card ((universe g \<union> set (imported # rest)) - visited st)"
    by (intro card_mono) (auto simp: finite_universe)
  then show "(Inr (g, rest, path,
                  st\<lparr>cycles := cycles st @ [slice path (indexOf path imported)]\<rparr>),
              Inr (g, imported # rest, path, st))
       \<in> inv_image (less_than <*lex*> less_than) dfs_measure"
    by (auto simp: dfs_measure_def)
  show "(Inr (g, rest, path, st), Inr (g, imported # rest, path, st))
       \<in> inv_image (less_than <*lex*> less_than) dfs_measure"
    using le by (auto simp: dfs_measure_def)
qed

declare dfs.simps [simp del]

text \<open>The loop \<open>for (const node of this.nodes.keys())\<close>.\<close>

fun dfs_roots :: "nodes \<Rightarrow> string list \<Rightarrow> dfs_state \<Rightarrow> dfs_state" where
  "dfs_roots g [] st = st"
| "dfs_roots g (node # rest) st =
     (if node \<notin> visited st then dfs_roots g rest (dfs g node [] st)
      else dfs_roots g rest st)"

definition findCircularDependencies :: "nodes \<Rightarrow> string list list" where
  "findCircularDependencies g =
     cycles (dfs_roots g (map fst g) \<lparr>visited = {}, recStack = {}, cycles = []\<rparr>)"

section \<open>core/unusedFinder.ts\<close>

record UnusedImport =
  ui_file :: string
  ui_line :: nat
  ui_importName :: string
  ui_from :: string

definition findInFile :: "env \<Rightarrow> string \<Rightarrow> UnusedImport list" where
  "findInFile w filePath =
     (case readFile w filePath of
        None \<Rightarrow> []
      | Some content \<Rightarrow>
          (let isTypeScript = isTypeScriptFile filePath
           in case extractImports w content isTypeScript of
                None \<Rightarrow> []
              | Some imports \<Rightarrow>
                  (case extractIdentifiers w content isTypeScript of
                     None \<Rightarrow> []
                   | Some usedIdentifiers \<Rightarrow>
                       concat (map (\<lambda>imp.
                         concat (map (\<lambda>specifier.
                           if specifier \<notin> usedIdentifiers
                           then [\<lparr>ui_file = filePath, ui_line = imp_line imp,
                                  ui_importName = specifier, ui_from = imp_source imp\<rparr>]
                           else []) (imp_specifiers imp))) imports))))"

definition findInFiles :: "env \<Rightarrow> string list \<Rightarrow> UnusedImport list" where
  "findInFiles w files = concat (map (findInFile w) files)"

definition findInProject :: "env \<Rightarrow> string \<Rightarrow> UnusedImport list" where
  "findInProject w targetPath =
     findInFiles w (getFiles w targetPath [''**/*.{js,jsx,ts,tsx}''] default_exclude)"

section \<open>core/deadCodeDetector.ts\<close>

datatype issue_type = unreachable | unused_var | empty_catch | unused_function

record DeadCodeIssue =
  dc_file :: string
  dc_line :: nat
  dc_type :: issue_type
  dc_description :: string

definition unreachable_issue :: "string \<Rightarrow> nat \<Rightarrow> DeadCodeIssue" where
  "unreachable_issue filePath l =
     \<lparr>dc_file = filePath, dc_line = l, dc_type = unreachable,
      dc_description = ''Unreachable code after return/throw statement''\<rparr>"

definition unused_var_issue :: "string \<Rightarrow> string \<times> nat \<Rightarrow> DeadCodeIssue" where
  "unused_var_issue filePath item =
     \<lparr>dc_file = filePath, dc_line = snd item, dc_type = unused_var,
      dc_description = ''Unused variable '' @ [CHR 0x27] @ fst item @ [CHR 0x27]\<rparr>"

definition empty_catch_issue :: "string \<Rightarrow> nat \<Rightarrow> DeadCodeIssue" where
  "empty_catch_issue filePath l =
     \<lparr>dc_file = filePath, dc_line = l, dc_type = empty_catch,
      dc_description = ''Empty catch block - errors are silently ignored''\<rparr>"

text \<open>
  The issues pushed before a call throws stay in the list that the \<open>catch\<close> block
  lets through.
\<close>

definition detectInFile :: "env \<Rightarrow> string \<Rightarrow> DeadCodeIssue list" where
  "detectInFile w filePath =
     (case readFile w filePath of
        None \<Rightarrow> []
      | Some content \<Rightarrow>
          (let isTypeScript = isTypeScriptFile filePath
           in case findUnreachableCode w content isTypeScript of
                None \<Rightarrow> []
              | Some unreachable_items \<Rightarrow>
                  (let issues1 = map (unreachable_issue filePath) unreachable_items
                   in case findUnusedVariables w content isTypeScript of
                        None \<Rightarrow> issues1
                      | Some unusedVars \<Rightarrow>
                          (let issues2 = issues1 @ map (unused_var_issue filePath) unusedVars
                           in case findEmptyCatchBlocks w content isTypeScript of
                                None \<Rightarrow> issues2
                              | Some emptyCatches \<Rightarrow>
                                  issues2 @ map (empty_catch_issue filePath) emptyCatches))))"

definition detectInFiles :: "env \<Rightarrow> string list \<Rightarrow> DeadCodeIssue list" where
  "detectInFiles w files = concat (map (detectInFile w) files)"

definition detectInProject :: "env \<Rightarrow> string \<Rightarrow> DeadCodeIssue list" where
  "detectInProject w targetPath =
     detectInFiles w (getFiles w targetPath [''**/*.{js,jsx,ts,tsx}''] default_exclude)"

section \<open>core/staleDetector.ts\<close>

record UnusedFile =
  uf_path :: string
  uf_reason :: string

definition entryPoints :: "string list" where
  "entryPoints =
     [''index'', ''main'', ''app'', ''_app'', ''server'', ''config'', ''vite.config'',
      ''webpack.config'', ''next.config'', ''tailwind.config'', ''jest.config'', ''test'',
      ''spec'', ''.test'', ''.spec'']"

definition findUnusedFiles :: "env \<Rightarrow> string \<Rightarrow> UnusedFile list" where
  "findUnusedFiles w targetPath =
     (let files = getFiles w targetPath [''**/*.{js,jsx,ts,tsx,vue,svelte}''] default_exclude;
          g = build w new_GraphBuilder targetPath (Some files);
          graphUnused = getUnusedFiles g entryPoints
      in map (\<lambda>file.
           \<lparr>uf_path = file,
            uf_reason = (if isStaleFilename w file
                         then ''Stale filename pattern (old/backup/copy)''
                         else ''Never imported by any file'')\<rparr>) graphUnused)"

section \<open>core/configAnalyzer.ts\<close>

datatype dependency_issue_type = unused | missing

record DependencyIssue =
  di_name :: string
  di_type :: dependency_issue_type
  di_installedVersion :: "string option"

record package_analysis =
  unusedDependencies :: "DependencyIssue list"
  missingDependencies :: "DependencyIssue list"
  unusedScripts :: "string list"

text \<open>
  An object literal with spread properties: the keys of the first object, then the new
  keys of the second; a key of both keeps its place and takes the second value.
\<close>

definition spread :: "(string \<times> 'v) list option \<Rightarrow> (string \<times> 'v) list option \<Rightarrow> (string \<times> 'v) list" where
  "spread a b =
     foldl (\<lambda>obj (k, v). assoc_set obj k v) []
       ((case a of None \<Rightarrow> [] | Some xs \<Rightarrow> xs) @ (case b of None \<Rightarrow> [] | Some ys \<Rightarrow> ys))"

text \<open>
  \<open>Object.entries\<close> and \<open>Object.keys\<close> list the keys that are array indices first, in
  ascending order, then the other keys in creation order.
\<close>

definition digit_value :: "string \<Rightarrow> nat" where
  "digit_value s = foldl (\<lambda>n c. 10 * n + (of_char c - 48)) 0 s"

definition is_array_index :: "string \<Rightarrow> bool" where
  "is_array_index s =
     (s \<noteq> [] \<and> list_all (\<lambda>c. 48 \<le> (of_char c :: nat) \<and> (of_char c :: nat) \<le> 57) s \<and>
      (s = ''0'' \<or> take 1 s \<noteq> ''0'') \<and> digit_value s < 4294967295)"

definition Object_entries :: "(string \<times> 'v) list \<Rightarrow> (string \<times> 'v) list" where
  "Object_entries obj =
     sort_key (\<lambda>(k, v). digit_value k) (filter (\<lambda>(k, v). is_array_index k) obj) @
     filter (\<lambda>(k, v). \<not> is_array_index k) obj"

text \<open>
  A property read \<open>obj[key]\<close> on a plain object falls back to \<open>Object.prototype\<close>:
  the keys below are there, each with a truthy value. A version string is truthy unless
  empty.
\<close>

definition Object_prototype_keys :: "string list" where
  "Object_prototype_keys =
     [''constructor'', ''__defineGetter__'', ''__defineSetter__'', ''hasOwnProperty'',
      ''__lookupGetter__'', ''__lookupSetter__'', ''isPrototypeOf'',
      ''propertyIsEnumerable'', ''toString'', ''valueOf'', ''__proto__'',
      ''toLocaleString'']"

definition truthy_property :: "(string \<times> string) list \<Rightarrow> string \<Rightarrow> bool" where
  "truthy_property obj key =
     (case map_of obj key of
        Some v \<Rightarrow> v \<noteq> []
      | None \<Rightarrow> key \<in> set Object_prototype_keys)"

text \<open>\<open>Set.prototype.add\<close> on an insertion-ordered set.\<close>

definition set_add :: "'a list \<Rightarrow> 'a \<Rightarrow> 'a list" where
  "set_add xs x = (if x \<in> set xs then xs else xs @ [x])"

lemma split_slash_not_Nil: "split_slash s \<noteq> []"
  by (induction s) (auto split: list.splits)

definition pkgName_of :: "string \<Rightarrow> string" where
  "pkgName_of src =
     (if prefix ''@'' src then join_slash (take 2 (split_slash src))
      else hd (split_slash src))"

definition track_import :: "string list \<Rightarrow> import_entry \<Rightarrow> string list" where
  "track_import allImports imp =
     (let pkgName = pkgName_of (imp_source imp)
      in if \<not> prefix ''.'' pkgName \<and> \<not> prefix ''/'' pkgName then set_add allImports pkgName
         else allImports)"

definition collect_file :: "env \<Rightarrow> string list \<Rightarrow> string \<Rightarrow> string list" where
  "collect_file w allImports file =
     (case readFile w file of
        None \<Rightarrow> allImports
      | Some content \<Rightarrow>
          (case extractImports w content (isTypeScriptFile file) of
             None \<Rightarrow> allImports
           | Some imports \<Rightarrow> foldl track_import allImports imports))"

definition skipList :: "string list" where
  "skipList =
     [''typescript'', ''eslint'', ''prettier'', ''jest'', ''vitest'', ''vite'', ''webpack'',
      ''rollup'', ''esbuild'', ''@types/'']"

definition analyzePackageJson :: "env \<Rightarrow> string \<Rightarrow> package_analysis" where
  "analyzePackageJson w targetPath =
     (case getPackageJson w targetPath of
        None \<Rightarrow> \<lparr>unusedDependencies = [], missingDependencies = [], unusedScripts = []\<rparr>
      | Some pkg \<Rightarrow>
          (let files = getFiles w targetPath [''**/*.{js,jsx,ts,tsx}''] default_exclude;
               allImports = foldl (collect_file w) [] files;
               deps = spread (dependencies pkg) (devDependencies pkg);
               unusedDeps = concat (map (\<lambda>(depName, version).
                 if depName \<notin> set allImports
                 then (if \<not> list_ex (\<lambda>skip. str_includes depName skip) skipList
                       then [\<lparr>di_name = depName, di_type = unused,
                              di_installedVersion = Some version\<rparr>]
                       else [])
                 else []) (Object_entries deps));
               missingDeps = concat (map (\<lambda>importedPkg.
                 if \<not> truthy_property deps importedPkg
                 then [\<lparr>di_name = importedPkg, di_type = missing,
                        di_installedVersion = None\<rparr>]
                 else []) allImports);
               stale_scripts = (case scripts pkg of
                 None \<Rightarrow> []
               | Some sc \<Rightarrow>
                   filter (\<lambda>script.
                     str_includes script ''old'' \<or> str_includes script ''backup'' \<or>
                     str_includes script ''temp'' \<or> str_includes script ''unused'')
                     (map fst (Object_entries sc)))
           in \<lparr>unusedDependencies = unusedDeps, missingDependencies = missingDeps,
               unusedScripts = stale_scripts\<rparr>))"

section \<open>Example environments\<close>

text \<open>
  A project directory \<open>/r\<close> whose files import each other by \<open>./name\<close>; the
  functions of \<open>path\<close> are given on such paths only.
\<close>

definition demo_path_env :: env where
  "demo_path_env =
     \<lparr>fs_readFile = (\<lambda>p. None),
      fs_existsSync = (\<lambda>p. False),
      glob = (\<lambda>pattern cwd ignore. []),
      path_dirname = (\<lambda>p. ''/r''),
      path_resolve = (\<lambda>dir p. dir @ drop 1 p),
      path_extname = (\<lambda>p. if suffix ''.ts'' p then ''.ts''
                          else if suffix ''.js'' p then ''.js'' else []),
      path_join = (\<lambda>a b. a @ ''/'' @ b),
      path_basename = (\<lambda>p ext. take (length (drop 3 p) - length ext) (drop 3 p)),
      babel_parse = (\<lambda>code isTypeScript. None),
      JSON_parse = (\<lambda>content. None)\<rparr>"

text \<open>\<open>/r/a.ts\<close> is \<open>import { f } from './b'\<close>; \<open>/r/b.ts\<close> imports nothing.\<close>

definition two_files_env :: env where
  "two_files_env =
     demo_path_env
       \<lparr>fs_readFile := (\<lambda>p. if p = ''/r/a.ts'' then Some ''A''
                              else if p = ''/r/b.ts'' then Some ''B'' else None),
        fs_existsSync := (\<lambda>p. p = ''/r/a.ts'' \<or> p = ''/r/b.ts''),
        babel_parse := (\<lambda>code isTypeScript.
           if code = ''A''
           then Some [ImportDeclaration [ImportSpecifier ''f''] ''./b'' (Some 1)]
           else Some [])\<rparr>"

text \<open>
  \<open>/r/a.ts\<close> is \<open>import { f } from './b'; import { h } from './b'\<close>: two import
  statements with the same target.
\<close>

definition double_import_env :: env where
  "double_import_env =
     two_files_env
       \<lparr>babel_parse := (\<lambda>code isTypeScript.
           if code = ''A''
           then Some [ImportDeclaration [ImportSpecifier ''f''] ''./b'' (Some 1),
                      ImportDeclaration [ImportSpecifier ''h''] ''./b'' (Some 2)]
           else Some [])\<rparr>"

section \<open>The dependency graph: edges on both sides\<close>

text \<open>The two edge lists of a path, empty when the graph has no such node.\<close>

definition imps :: "nodes \<Rightarrow> string \<Rightarrow> string list" where
  "imps g A = (case map_of g A of None \<Rightarrow> [] | Some n \<Rightarrow> node_imports n)"

definition impBy :: "nodes \<Rightarrow> string \<Rightarrow> string list" where
  "impBy g B = (case map_of g B of None \<Rightarrow> [] | Some n \<Rightarrow> node_importedBy n)"

lemma map_of_update_node:
  "map_of (update_node g k f) x = (if x = k then map_option f (map_of g k) else map_of g x)"
  by (induction g) (auto simp: update_node_def)

lemma map_of_assoc_set: "map_of (assoc_set g k v) = (map_of g)(k \<mapsto> v)"
  by (induction g) auto

lemma dom_update_node: "dom (map_of (update_node g k f)) = dom (map_of g)"
  by (auto simp: map_of_update_node dom_def)

definition imports_of :: "env \<Rightarrow> string \<Rightarrow> import_entry list" where
  "imports_of w f =
     (case readFile w f of
        None \<Rightarrow> []
      | Some content \<Rightarrow>
          (case extractImports w content (isTypeScriptFile f) of
             None \<Rightarrow> []
           | Some entries \<Rightarrow> entries))"

definition resolving :: "env \<Rightarrow> string \<Rightarrow> string \<Rightarrow> import_entry list \<Rightarrow> nat" where
  "resolving w A B entries =
     length (filter (\<lambda>imp. resolveImportPath w A (imp_source imp) default_extensions = Some B) entries)"

lemma dom_add_edge: "dom (map_of (add_edge g F P)) = dom (map_of g)"
  by (simp add: add_edge_def dom_update_node)

lemma imps_add_edge:
  "imps (add_edge g F P) A = (if A = F \<and> F \<in> dom (map_of g) then imps g A @ [P] else imps g A)"
proof (cases "map_of g A")
  case None
  then show ?thesis by (auto simp: add_edge_def imps_def map_of_update_node)
next
  case (Some n)
  then show ?thesis by (auto simp: add_edge_def imps_def map_of_update_node)
qed

lemma impBy_add_edge:
  "impBy (add_edge g F P) B =
     (if B = P \<and> P \<in> dom (map_of g) then impBy g B @ [F] else impBy g B)"
proof (cases "map_of g B")
  case None
  then show ?thesis by (auto simp: add_edge_def impBy_def map_of_update_node)
next
  case (Some n)
  then show ?thesis by (auto simp: add_edge_def impBy_def map_of_update_node)
qed

lemma process_import_cases:
  "process_import w F g imp =
     (case resolveImportPath w F (imp_source imp) default_extensions of
        None \<Rightarrow> g
      | Some P \<Rightarrow> if P \<noteq> [] \<and> P \<in> dom (map_of g) then add_edge g F P else g)"
  by (simp add: process_import_def nodes_has_def dom_def split: option.splits)

lemma dom_process_import: "dom (map_of (process_import w F g imp)) = dom (map_of g)"
  by (simp add: process_import_cases dom_add_edge split: option.splits)

lemma dom_foldl_process_import:
  "dom (map_of (foldl (process_import w F) g entries)) = dom (map_of g)"
  by (induction entries arbitrary: g) (simp_all add: dom_process_import)

lemma imps_process_import:
  assumes "F \<in> dom (map_of g)"
  shows "count_list (imps (process_import w F g imp) A) B =
         count_list (imps g A) B +
         (if A = F \<and> B \<in> dom (map_of g) \<and> B \<noteq> [] \<and>
             resolveImportPath w F (imp_source imp) default_extensions = Some B then 1 else 0)"
proof (cases "resolveImportPath w F (imp_source imp) default_extensions")
  case None
  then show ?thesis by (simp add: process_import_cases)
next
  case (Some P)
  then show ?thesis using assms by (simp add: process_import_cases imps_add_edge)
qed

lemma impBy_process_import:
  assumes "F \<in> dom (map_of g)"
  shows "count_list (impBy (process_import w F g imp) B) A =
         count_list (impBy g B) A +
         (if A = F \<and> B \<in> dom (map_of g) \<and> B \<noteq> [] \<and>
             resolveImportPath w F (imp_source imp) default_extensions = Some B then 1 else 0)"
proof (cases "resolveImportPath w F (imp_source imp) default_extensions")
  case None
  then show ?thesis by (simp add: process_import_cases)
next
  case (Some P)
  then show ?thesis using assms by (auto simp: process_import_cases impBy_add_edge)
qed

lemma imps_foldl_process_import:
  assumes "F \<in> dom (map_of g)"
  shows "count_list (imps (foldl (process_import w F) g entries) A) B =
         count_list (imps g A) B +
         (if A = F \<and> B \<in> dom (map_of g) \<and> B \<noteq> [] then resolving w F B entries else 0)"
  using assms
proof (induction entries arbitrary: g)
  case Nil
  then show ?case by (simp add: resolving_def)
next
  case (Cons imp entries)
  have "F \<in> dom (map_of (process_import w F g imp))"
    using Cons.prems by (simp add: dom_process_import)
  from Cons.IH[OF this] show ?case
    using Cons.prems
    by (simp add: imps_process_import dom_process_import resolving_def)
qed

lemma impBy_foldl_process_import:
  assumes "F \<in> dom (map_of g)"
  shows "count_list (impBy (foldl (process_import w F) g entries) B) A =
         count_list (impBy g B) A +
         (if A = F \<and> B \<in> dom (map_of g) \<and> B \<noteq> [] then resolving w F B entries else 0)"
  using assms
proof (induction entries arbitrary: g)
  case Nil
  then show ?case by (simp add: resolving_def)
next
  case (Cons imp entries)
  have "F \<in> dom (map_of (process_import w F g imp))"
    using Cons.prems by (simp add: dom_process_import)
  from Cons.IH[OF this] show ?case
    using Cons.prems
    by (simp add: impBy_process_import dom_process_import resolving_def)
qed

lemma imps_update_exports:
  "imps (update_node g k (\<lambda>node. node\<lparr>node_exports := e\<rparr>)) A = imps g A"
  by (auto simp: imps_def map_of_update_node split: option.splits)

lemma impBy_update_exports:
  "impBy (update_node g k (\<lambda>node. node\<lparr>node_exports := e\<rparr>)) A = impBy g A"
  by (auto simp: impBy_def map_of_update_node split: option.splits)

lemma dom_processFile: "dom (map_of (processFile w g F root)) = dom (map_of g)"
  by (auto simp: processFile_def Let_def dom_update_node dom_foldl_process_import
           split: option.splits)

lemma processFile_absent: "map_of g F = None \<Longrightarrow> processFile w g F root = g"
  by (simp add: processFile_def nodes_get_def)

lemma processFile_present:
  assumes "map_of g F = Some n"
  shows "processFile w g F root = foldl (process_import w F) g (imports_of w F) \<or>
         (\<exists>e. processFile w g F root =
            update_node (foldl (process_import w F) g (imports_of w F)) F
              (\<lambda>node. node\<lparr>node_exports := e\<rparr>))"
  using assms
  by (auto simp: processFile_def nodes_get_def imports_of_def Let_def split: option.splits)

lemma imps_processFile:
  "count_list (imps (processFile w g F root) A) B =
   count_list (imps g A) B +
   (if A = F \<and> F \<in> dom (map_of g) \<and> B \<in> dom (map_of g) \<and> B \<noteq> []
    then resolving w F B (imports_of w F) else 0)"
proof (cases "map_of g F")
  case None
  then show ?thesis by (auto simp: processFile_absent)
next
  case (Some n)
  then have dom: "F \<in> dom (map_of g)" by auto
  show ?thesis
    using processFile_present[OF Some, of w root] dom
    by (auto simp: imps_update_exports imps_foldl_process_import[OF dom] split: if_splits)
qed

lemma impBy_processFile:
  "count_list (impBy (processFile w g F root) B) A =
   count_list (impBy g B) A +
   (if A = F \<and> F \<in> dom (map_of g) \<and> B \<in> dom (map_of g) \<and> B \<noteq> []
    then resolving w F B (imports_of w F) else 0)"
proof (cases "map_of g F")
  case None
  then show ?thesis by (auto simp: processFile_absent)
next
  case (Some n)
  then have dom: "F \<in> dom (map_of g)" by auto
  show ?thesis
    using processFile_present[OF Some, of w root] dom
    by (auto simp: impBy_update_exports impBy_foldl_process_import[OF dom] split: if_splits)
qed

lemma dom_foldl_processFile:
  "dom (map_of (foldl (\<lambda>g file. processFile w g file root) g fs)) = dom (map_of g)"
  by (induction fs arbitrary: g) (simp_all add: dom_processFile)

lemma imps_foldl_processFile:
  "count_list (imps (foldl (\<lambda>g file. processFile w g file root) g fs) A) B =
   count_list (imps g A) B +
   (if A \<in> dom (map_of g) \<and> B \<in> dom (map_of g) \<and> B \<noteq> []
    then count_list fs A * resolving w A B (imports_of w A) else 0)"
  by (induction fs arbitrary: g) (auto simp: imps_processFile dom_processFile)

lemma impBy_foldl_processFile:
  "count_list (impBy (foldl (\<lambda>g file. processFile w g file root) g fs) B) A =
   count_list (impBy g B) A +
   (if A \<in> dom (map_of g) \<and> B \<in> dom (map_of g) \<and> B \<noteq> []
    then count_list fs A * resolving w A B (imports_of w A) else 0)"
  by (induction fs arbitrary: g) (auto simp: impBy_processFile dom_processFile)

lemma map_of_node_phase:
  "map_of (foldl (\<lambda>g file. nodes_set g file
       \<lparr>node_path = file, node_imports = [], node_importedBy = [], node_exports = []\<rparr>) g fs) k =
     (if k \<in> set fs
      then Some \<lparr>node_path = k, node_imports = [], node_importedBy = [], node_exports = []\<rparr>
      else map_of g k)"
  by (induction fs arbitrary: g) (auto simp: nodes_set_def map_of_assoc_set)


definition scanned_files :: "env \<Rightarrow> string \<Rightarrow> string list option \<Rightarrow> string list" where
  "scanned_files w targetPath files =
     (case files of
        Some fs \<Rightarrow> fs
      | None \<Rightarrow> getFiles w targetPath default_patterns default_exclude)"

definition edge_count :: "env \<Rightarrow> string list \<Rightarrow> string \<Rightarrow> string \<Rightarrow> nat" where
  "edge_count w fs A B =
     (if A \<in> set fs \<and> B \<in> set fs \<and> B \<noteq> []
      then count_list fs A * resolving w A B (imports_of w A) else 0)"

lemma node_phase_dom:
  "dom (map_of (foldl (\<lambda>g file. nodes_set g file
       \<lparr>node_path = file, node_imports = [], node_importedBy = [], node_exports = []\<rparr>) [] fs))
   = set fs"
  by (auto simp: dom_def map_of_node_phase)

lemma node_phase_imps:
  "imps (foldl (\<lambda>g file. nodes_set g file
       \<lparr>node_path = file, node_imports = [], node_importedBy = [], node_exports = []\<rparr>) [] fs) A
   = []"
  by (simp add: imps_def map_of_node_phase)

lemma node_phase_impBy:
  "impBy (foldl (\<lambda>g file. nodes_set g file
       \<lparr>node_path = file, node_imports = [], node_importedBy = [], node_exports = []\<rparr>) [] fs) A
   = []"
  by (simp add: impBy_def map_of_node_phase)

lemma build_unfold:
  "build w new_GraphBuilder root files =
     foldl (\<lambda>g file. processFile w g file root)
       (foldl (\<lambda>g file. nodes_set g file
          \<lparr>node_path = file, node_imports = [], node_importedBy = [], node_exports = []\<rparr>) []
          (scanned_files w root files))
       (scanned_files w root files)"
  by (simp add: build_def new_GraphBuilder_def Let_def scanned_files_def)

lemma build_imps:
  "count_list (imps (build w new_GraphBuilder root files) A) B =
     edge_count w (scanned_files w root files) A B"
  unfolding build_unfold imps_foldl_processFile node_phase_dom node_phase_imps edge_count_def
  by simp

lemma build_impBy:
  "count_list (impBy (build w new_GraphBuilder root files) B) A =
     edge_count w (scanned_files w root files) A B"
  unfolding build_unfold impBy_foldl_processFile node_phase_dom node_phase_impBy edge_count_def
  by simp

lemma build_dom:
  "dom (map_of (build w new_GraphBuilder root files)) = set (scanned_files w root files)"
  unfolding build_unfold dom_foldl_processFile node_phase_dom by simp

lemma count_list_distinct: "distinct xs \<Longrightarrow> x \<in> set xs \<Longrightarrow> count_list xs x = 1"
  by (induction xs) auto

text \<open>
  C1. In every graph that \<open>build\<close> produces from a fresh builder, for every pair of
  nodes \<open>A\<close> and \<open>B\<close>: \<open>B\<close> is in \<open>A.imports\<close> if and only if \<open>A\<close> is in
  \<open>B.importedBy\<close>, and even as often. The only writes to the two lists are the two
  pushes of \<open>add_edge\<close>, made together.
\<close>

theorem graph_symmetry:
  assumes "nodes_get (build w new_GraphBuilder targetPath files) A = Some a"
      and "nodes_get (build w new_GraphBuilder targetPath files) B = Some b"
  shows "(B \<in> set (node_imports a) \<longleftrightarrow> A \<in> set (node_importedBy b)) \<and>
         count_list (node_imports a) B = count_list (node_importedBy b) A"
proof -
  let ?G = "build w new_GraphBuilder targetPath files"
  have a: "imps ?G A = node_imports a" and b: "impBy ?G B = node_importedBy b"
    using assms by (simp_all add: imps_def impBy_def nodes_get_def)
  have eq: "count_list (node_imports a) B = count_list (node_importedBy b) A"
    using build_imps[of w targetPath files A B] build_impBy[of w targetPath files B A]
    by (simp add: a b)
  then have "(count_list (node_imports a) B > 0) = (count_list (node_importedBy b) A > 0)"
    by simp
  then have "(B \<in> set (node_imports a)) = (A \<in> set (node_importedBy b))"
    by (simp add: count_list_0_iff zero_less_iff_neq_zero)
  with eq show ?thesis by simp
qed

theorem graph_symmetry_witness:
  "nodes_get (build two_files_env new_GraphBuilder ''/r'' (Some [''/r/a.ts'', ''/r/b.ts'']))
     ''/r/a.ts'' =
     Some \<lparr>node_path = ''/r/a.ts'', node_imports = [''/r/b.ts''], node_importedBy = [],
           node_exports = []\<rparr> \<and>
   nodes_get (build two_files_env new_GraphBuilder ''/r'' (Some [''/r/a.ts'', ''/r/b.ts'']))
     ''/r/b.ts'' =
     Some \<lparr>node_path = ''/r/b.ts'', node_imports = [], node_importedBy = [''/r/a.ts''],
           node_exports = []\<rparr> \<and>
   (''/r/b.ts'' \<in> set [''/r/b.ts''] \<longleftrightarrow> ''/r/a.ts'' \<in> set [''/r/a.ts'']) \<and>
   count_list [''/r/b.ts''] ''/r/b.ts'' = count_list [''/r/a.ts''] ''/r/a.ts''"
proof -
  let ?G = "build two_files_env new_GraphBuilder ''/r'' (Some [''/r/a.ts'', ''/r/b.ts''])"
  have a: "nodes_get ?G ''/r/a.ts'' =
      Some \<lparr>node_path = ''/r/a.ts'', node_imports = [''/r/b.ts''], node_importedBy = [],
            node_exports = []\<rparr>"
    by code_simp
  have b: "nodes_get ?G ''/r/b.ts'' =
      Some \<lparr>node_path = ''/r/b.ts'', node_imports = [], node_importedBy = [''/r/a.ts''],
            node_exports = []\<rparr>"
    by code_simp
  from graph_symmetry[OF a b] a b show ?thesis by simp
qed

text \<open>
  C2. The claim that a target appears at most once in \<open>imports\<close> and an importer at
  most once in \<open>importedBy\<close> fails: the lists are arrays and every resolved import
  statement pushes. For a graph built from a file list without duplicates, \<open>B\<close>
  appears in \<open>A.imports\<close> once per import statement of \<open>A\<close> that resolves to \<open>B\<close>, and
  \<open>A\<close> in \<open>B.importedBy\<close> as often.
\<close>

theorem import_multiplicity:
  assumes "distinct fs"
      and "nodes_get (build w new_GraphBuilder targetPath (Some fs)) A = Some a"
      and "nodes_get (build w new_GraphBuilder targetPath (Some fs)) B = Some b"
      and "B \<noteq> []"
  shows "count_list (node_imports a) B = resolving w A B (imports_of w A) \<and>
         count_list (node_importedBy b) A = resolving w A B (imports_of w A)"
proof -
  let ?G = "build w new_GraphBuilder targetPath (Some fs)"
  have fs: "scanned_files w targetPath (Some fs) = fs"
    by (simp add: scanned_files_def)
  have "A \<in> dom (map_of ?G)" "B \<in> dom (map_of ?G)"
    using assms(2,3) by (auto simp: nodes_get_def)
  then have mem: "A \<in> set fs" "B \<in> set fs"
    by (simp_all add: build_dom fs)
  then have one: "count_list fs A = 1"
    using assms(1) by (simp add: count_list_distinct)
  have a: "imps ?G A = node_imports a" and b: "impBy ?G B = node_importedBy b"
    using assms(2,3) by (simp_all add: imps_def impBy_def nodes_get_def)
  have "count_list (node_imports a) B = edge_count w fs A B"
    using build_imps[of w targetPath "Some fs" A B] by (simp add: a fs)
  moreover have "count_list (node_importedBy b) A = edge_count w fs A B"
    using build_impBy[of w targetPath "Some fs" B A] by (simp add: b fs)
  moreover have "edge_count w fs A B = resolving w A B (imports_of w A)"
    using mem one assms(4) by (simp add: edge_count_def)
  ultimately show ?thesis by simp
qed

theorem import_multiplicity_witness:
  "distinct [''/r/a.ts'', ''/r/b.ts''] \<and>
   nodes_get (build double_import_env new_GraphBuilder ''/r'' (Some [''/r/a.ts'', ''/r/b.ts'']))
     ''/r/a.ts'' =
     Some \<lparr>node_path = ''/r/a.ts'', node_imports = [''/r/b.ts'', ''/r/b.ts''],
           node_importedBy = [], node_exports = []\<rparr> \<and>
   nodes_get (build double_import_env new_GraphBuilder ''/r'' (Some [''/r/a.ts'', ''/r/b.ts'']))
     ''/r/b.ts'' =
     Some \<lparr>node_path = ''/r/b.ts'', node_imports = [],
           node_importedBy = [''/r/a.ts'', ''/r/a.ts''], node_exports = []\<rparr> \<and>
   ''/r/b.ts'' \<noteq> [] \<and>
   resolving double_import_env ''/r/a.ts'' ''/r/b.ts''
     (imports_of double_import_env ''/r/a.ts'') = 2 \<and>
   count_list [''/r/b.ts'', ''/r/b.ts''] ''/r/b.ts'' = 2 \<and>
   count_list [''/r/a.ts'', ''/r/a.ts''] ''/r/a.ts'' = 2"
proof -
  let ?G = "build double_import_env new_GraphBuilder ''/r'' (Some [''/r/a.ts'', ''/r/b.ts''])"
  have d: "distinct [''/r/a.ts'', ''/r/b.ts'']" by simp
  have a: "nodes_get ?G ''/r/a.ts'' =
      Some \<lparr>node_path = ''/r/a.ts'', node_imports = [''/r/b.ts'', ''/r/b.ts''],
            node_importedBy = [], node_exports = []\<rparr>"
    by code_simp
  have b: "nodes_get ?G ''/r/b.ts'' =
      Some \<lparr>node_path = ''/r/b.ts'', node_imports = [],
            node_importedBy = [''/r/a.ts'', ''/r/a.ts''], node_exports = []\<rparr>"
    by code_simp
  have n: "''/r/b.ts'' \<noteq> []" by simp
  have r: "resolving double_import_env ''/r/a.ts'' ''/r/b.ts''
      (imports_of double_import_env ''/r/a.ts'') = 2"
    by code_simp
  from import_multiplicity[OF d a b n] d a b r show ?thesis by simp
qed

theorem imports_not_a_set_counterexample:
  "build double_import_env new_GraphBuilder ''/r'' (Some [''/r/a.ts'', ''/r/b.ts'']) =
     [(''/r/a.ts'',
       \<lparr>node_path = ''/r/a.ts'', node_imports = [''/r/b.ts'', ''/r/b.ts''],
        node_importedBy = [], node_exports = []\<rparr>),
      (''/r/b.ts'',
       \<lparr>node_path = ''/r/b.ts'', node_imports = [],
        node_importedBy = [''/r/a.ts'', ''/r/a.ts''], node_exports = []\<rparr>)] \<and>
   \<not> distinct [''/r/b.ts'', ''/r/b.ts''] \<and> \<not> distinct [''/r/a.ts'', ''/r/a.ts'']"
proof -
  have "build double_import_env new_GraphBuilder ''/r'' (Some [''/r/a.ts'', ''/r/b.ts'']) =
     [(''/r/a.ts'',
       \<lparr>node_path = ''/r/a.ts'', node_imports = [''/r/b.ts'', ''/r/b.ts''],
        node_importedBy = [], node_exports = []\<rparr>),
      (''/r/b.ts'',
       \<lparr>node_path = ''/r/b.ts'', node_imports = [],
        node_importedBy = [''/r/a.ts'', ''/r/a.ts''], node_exports = []\<rparr>)]"
    by code_simp
  then show ?thesis by simp
qed

section \<open>Cycle detection on a ring of three files\<close>

lemma perm3_cases:
  assumes "mset g = {#x, y, z#}"
  shows "g = [x, y, z] \<or> g = [x, z, y] \<or> g = [y, x, z] \<or>
         g = [y, z, x] \<or> g = [z, x, y] \<or> g = [z, y, x]"
proof -
  have "length g = 3" using arg_cong[OF assms, of size] by simp
  then obtain p q r where g: "g = [p, q, r]"
    by (auto simp: length_Suc_conv eval_nat_numeral)
  from assms show ?thesis unfolding g
    by (auto simp: add_eq_conv_ex)
qed

lemma ring_step3:
  assumes "A \<noteq> B" "B \<noteq> C" "A \<noteq> C"
    and "node_imports c = [A]" and "nodes_get g C = Some c"
  shows "dfs g C [A, B] \<lparr>visited = {A, B}, recStack = {A, B}, cycles = []\<rparr> =
         \<lparr>visited = {A, B, C}, recStack = {A, B}, cycles = [[A, B, C]]\<rparr>"
proof -
  have "insert C {A, B} - {C} = {A, B}" using assms by auto
  then show ?thesis
    using assms
    by (subst dfs.simps) (auto simp: Let_def slice_def insert_commute)
qed

lemma ring_step2:
  assumes "A \<noteq> B" "B \<noteq> C" "A \<noteq> C"
    and "node_imports b = [C]" "node_imports c = [A]"
    and "nodes_get g B = Some b" "nodes_get g C = Some c"
  shows "dfs g B [A] \<lparr>visited = {A}, recStack = {A}, cycles = []\<rparr> =
         \<lparr>visited = {A, B, C}, recStack = {A}, cycles = [[A, B, C]]\<rparr>"
proof -
  have "insert B {A} = {A, B}" by auto
  moreover have "{A, B} - {B} = {A}" using assms by auto
  ultimately show ?thesis
    using assms ring_step3[of A B C c g]
    by (subst dfs.simps) (simp add: Let_def)
qed

lemma ring_from_first:
  assumes "A \<noteq> B" "B \<noteq> C" "A \<noteq> C"
    and "node_imports a = [B]" "node_imports b = [C]" "node_imports c = [A]"
    and "nodes_get g A = Some a" "nodes_get g B = Some b" "nodes_get g C = Some c"
  shows "dfs g A [] \<lparr>visited = {}, recStack = {}, cycles = []\<rparr> =
         \<lparr>visited = {A, B, C}, recStack = {}, cycles = [[A, B, C]]\<rparr>"
  using assms ring_step2[of A B C b c g]
  by (subst dfs.simps) (simp add: Let_def)

lemma ring_roots:
  assumes "A \<noteq> B" "B \<noteq> C" "A \<noteq> C"
    and "node_imports a = [B]" "node_imports b = [C]" "node_imports c = [A]"
    and "nodes_get g A = Some a" "nodes_get g B = Some b" "nodes_get g C = Some c"
    and "map fst g = [A, X, Y]" "X \<in> {B, C}" "Y \<in> {B, C}"
  shows "findCircularDependencies g = [[A, B, C]]"
  using assms(10-12)
  by (auto simp: findCircularDependencies_def ring_from_first[OF assms(1-9)])

text \<open>Three files, each importing the next: \<open>a \<rightarrow> b \<rightarrow> c \<rightarrow> a\<close>.\<close>

definition ring_graph :: nodes where
  "ring_graph =
     [(''/r/a.ts'', \<lparr>node_path = ''/r/a.ts'', node_imports = [''/r/b.ts''],
                    node_importedBy = [''/r/c.ts''], node_exports = []\<rparr>),
      (''/r/b.ts'', \<lparr>node_path = ''/r/b.ts'', node_imports = [''/r/c.ts''],
                    node_importedBy = [''/r/a.ts''], node_exports = []\<rparr>),
      (''/r/c.ts'', \<lparr>node_path = ''/r/c.ts'', node_imports = [''/r/a.ts''],
                    node_importedBy = [''/r/b.ts''], node_exports = []\<rparr>)]"

text \<open>
  C6. For every graph that is a ring of three nodes \<open>A \<rightarrow> B \<rightarrow> C \<rightarrow> A\<close>, whatever the
  order in which the map holds them, \<open>findCircularDependencies\<close> returns one cycle:
  the three nodes in import order, starting at the first key of the map.
\<close>

theorem ring_cycle_found:
  assumes "distinct [A, B, C]"
    and "node_imports a = [B]" "node_imports b = [C]" "node_imports c = [A]"
    and "mset g = {#(A, a), (B, b), (C, c)#}"
  shows "findCircularDependencies g = [[A, B, C]] \<or>
         findCircularDependencies g = [[B, C, A]] \<or>
         findCircularDependencies g = [[C, A, B]]"
proof -
  have ne: "A \<noteq> B" "B \<noteq> C" "A \<noteq> C" "C \<noteq> A" "B \<noteq> A" "C \<noteq> B"
    using assms(1) by auto
  have keys: "mset (map fst g) = {#A, B, C#}"
    using arg_cong[OF assms(5), of "image_mset fst"] by simp
  then have "mset (map fst g) = mset [A, B, C]" by simp
  then have "distinct (map fst g) = distinct [A, B, C]"
    by (rule mset_eq_imp_distinct_iff)
  then have dist: "distinct (map fst g)" using assms(1) by simp
  have "set g = {(A, a), (B, b), (C, c)}"
    using arg_cong[OF assms(5), of set_mset] by simp
  then have get: "nodes_get g A = Some a" "nodes_get g B = Some b" "nodes_get g C = Some c"
    using dist by (simp_all add: nodes_get_def map_of_eq_Some_iff)
  from perm3_cases[OF keys]
  consider "map fst g = [A, B, C]" | "map fst g = [A, C, B]"
    | "map fst g = [B, A, C]" | "map fst g = [B, C, A]"
    | "map fst g = [C, A, B]" | "map fst g = [C, B, A]"
    by blast
  then show ?thesis
  proof cases
    case 1
    then show ?thesis
      using ring_roots[OF ne(1,2,3) assms(2,3,4) get, of B C] by simp
  next
    case 2
    then show ?thesis
      using ring_roots[OF ne(1,2,3) assms(2,3,4) get, of C B] by simp
  next
    case 3
    then show ?thesis
      using ring_roots[OF ne(2,4,5) assms(3,4,2) get(2,3,1), of A C] by simp
  next
    case 4
    then show ?thesis
      using ring_roots[OF ne(2,4,5) assms(3,4,2) get(2,3,1), of C A] by simp
  next
    case 5
    then show ?thesis
      using ring_roots[OF ne(4,1,6) assms(4,2,3) get(3,1,2), of A B] by simp
  next
    case 6
    then show ?thesis
      using ring_roots[OF ne(4,1,6) assms(4,2,3) get(3,1,2), of B A] by simp
  qed
qed

theorem ring_cycle_found_witness:
  "distinct [''/r/a.ts'', ''/r/b.ts'', ''/r/c.ts''] \<and>
   mset ring_graph =
     {#(''/r/a.ts'', \<lparr>node_path = ''/r/a.ts'', node_imports = [''/r/b.ts''],
                     node_importedBy = [''/r/c.ts''], node_exports = []\<rparr>),
       (''/r/b.ts'', \<lparr>node_path = ''/r/b.ts'', node_imports = [''/r/c.ts''],
                     node_importedBy = [''/r/a.ts''], node_exports = []\<rparr>),
       (''/r/c.ts'', \<lparr>node_path = ''/r/c.ts'', node_imports = [''/r/a.ts''],
                     node_importedBy = [''/r/b.ts''], node_exports = []\<rparr>)#} \<and>
   findCircularDependencies ring_graph = [[''/r/a.ts'', ''/r/b.ts'', ''/r/c.ts'']]"
proof -
  have d: "distinct [''/r/a.ts'', ''/r/b.ts'', ''/r/c.ts'']" by simp
  have m: "mset ring_graph =
     {#(''/r/a.ts'', \<lparr>node_path = ''/r/a.ts'', node_imports = [''/r/b.ts''],
                     node_importedBy = [''/r/c.ts''], node_exports = []\<rparr>),
       (''/r/b.ts'', \<lparr>node_path = ''/r/b.ts'', node_imports = [''/r/c.ts''],
                     node_importedBy = [''/r/a.ts''], node_exports = []\<rparr>),
       (''/r/c.ts'', \<lparr>node_path = ''/r/c.ts'', node_imports = [''/r/a.ts''],
                     node_importedBy = [''/r/b.ts''], node_exports = []\<rparr>)#}"
    by (simp add: ring_graph_def)
  have i: "node_imports \<lparr>node_path = ''/r/a.ts'', node_imports = [''/r/b.ts''],
                     node_importedBy = [''/r/c.ts''], node_exports = []\<rparr> = [''/r/b.ts'']"
          "node_imports \<lparr>node_path = ''/r/b.ts'', node_imports = [''/r/c.ts''],
                     node_importedBy = [''/r/a.ts''], node_exports = []\<rparr> = [''/r/c.ts'']"
          "node_imports \<lparr>node_path = ''/r/c.ts'', node_imports = [''/r/a.ts''],
                     node_importedBy = [''/r/b.ts''], node_exports = []\<rparr> = [''/r/a.ts'']"
    by simp_all
  have v: "findCircularDependencies ring_graph = [[''/r/a.ts'', ''/r/b.ts'', ''/r/c.ts'']]"
    by code_simp
  from ring_cycle_found[OF d i m] d m v show ?thesis by blast
qed

section \<open>Unused imports\<close>

text \<open>
  \<open>/r/f.js\<close> is \<open>import moment from 'moment'; import lodash from 'lodash';
  lodash.noop();\<close>
\<close>

definition moment_lodash_env :: env where
  "moment_lodash_env =
     demo_path_env
       \<lparr>fs_readFile := (\<lambda>p. if p = ''/r/f.js'' then Some ''F'' else None),
        fs_existsSync := (\<lambda>p. p = ''/r/f.js''),
        babel_parse := (\<lambda>code isTypeScript.
           if code = ''F''
           then Some [ImportDeclaration [ImportDefaultSpecifier ''moment''] ''moment'' (Some 1),
                      Identifier ''moment'' ImportDefaultSpecifierParent,
                      ImportDeclaration [ImportDefaultSpecifier ''lodash''] ''lodash'' (Some 2),
                      Identifier ''lodash'' ImportDefaultSpecifierParent,
                      OtherNode,
                      Identifier ''lodash'' (MemberExpression False False),
                      Identifier ''noop'' (MemberExpression True False)]
           else None)\<rparr>"

text \<open>
  C3. In a file that is read and parsed, the unused imports reported are exactly the
  local names of the import specifiers that are not in the set of used identifiers,
  each with the line and the source of its import statement. In the file importing
  \<open>moment\<close> and \<open>lodash\<close> and referring to \<open>lodash\<close> only, exactly \<open>moment\<close> is
  reported.
\<close>

theorem unused_import_iff:
  assumes "readFile w f = Some content"
      and "extractImports w content (isTypeScriptFile f) = Some imports"
      and "extractIdentifiers w content (isTypeScriptFile f) = Some usedIdentifiers"
  shows "set (findInFile w f) =
           {\<lparr>ui_file = f, ui_line = imp_line imp, ui_importName = specifier,
             ui_from = imp_source imp\<rparr> | imp specifier.
              imp \<in> set imports \<and> specifier \<in> set (imp_specifiers imp) \<and>
              specifier \<notin> usedIdentifiers}"
  using assms by (auto simp: findInFile_def Let_def)

theorem unused_import_iff_witness:
  "readFile moment_lodash_env ''/r/f.js'' = Some ''F'' \<and>
   extractImports moment_lodash_env ''F'' (isTypeScriptFile ''/r/f.js'') =
     Some [\<lparr>imp_source = ''moment'', imp_specifiers = [''moment''], imp_line = 1\<rparr>,
           \<lparr>imp_source = ''lodash'', imp_specifiers = [''lodash''], imp_line = 2\<rparr>] \<and>
   extractIdentifiers moment_lodash_env ''F'' (isTypeScriptFile ''/r/f.js'') = Some {''lodash''} \<and>
   findInFile moment_lodash_env ''/r/f.js'' =
     [\<lparr>ui_file = ''/r/f.js'', ui_line = 1, ui_importName = ''moment'', ui_from = ''moment''\<rparr>] \<and>
   set (findInFile moment_lodash_env ''/r/f.js'') =
     {\<lparr>ui_file = ''/r/f.js'', ui_line = imp_line imp, ui_importName = specifier,
       ui_from = imp_source imp\<rparr> | imp specifier.
        imp \<in> set [\<lparr>imp_source = ''moment'', imp_specifiers = [''moment''], imp_line = 1\<rparr>,
                    \<lparr>imp_source = ''lodash'', imp_specifiers = [''lodash''], imp_line = 2\<rparr>] \<and>
        specifier \<in> set (imp_specifiers imp) \<and> specifier \<notin> {''lodash''}}"
proof -
  have r: "readFile moment_lodash_env ''/r/f.js'' = Some ''F''" by code_simp
  have i: "extractImports moment_lodash_env ''F'' (isTypeScriptFile ''/r/f.js'') =
     Some [\<lparr>imp_source = ''moment'', imp_specifiers = [''moment''], imp_line = 1\<rparr>,
           \<lparr>imp_source = ''lodash'', imp_specifiers = [''lodash''], imp_line = 2\<rparr>]"
    by code_simp
  have u: "extractIdentifiers moment_lodash_env ''F'' (isTypeScriptFile ''/r/f.js'') = Some {''lodash''}"
    by code_simp
  have v: "findInFile moment_lodash_env ''/r/f.js'' =
     [\<lparr>ui_file = ''/r/f.js'', ui_line = 1, ui_importName = ''moment'', ui_from = ''moment''\<rparr>]"
    by code_simp
  from unused_import_iff[OF r i u] r i u v show ?thesis by blast
qed

section \<open>Dead code\<close>

text \<open>
  The statement lists of the function nodes that have a block body, and the statements
  of a list that follow its first \<open>return\<close> or \<open>throw\<close>.
\<close>

fun function_body :: "node \<Rightarrow> statement list list" where
  "function_body (FunctionDeclaration fid referenced parentType loc body) = [body]"
| "function_body (Function (Some body)) = [body]"
| "function_body _ = []"

definition block_bodies :: "node list \<Rightarrow> statement list list" where
  "block_bodies ast = concat (map function_body ast)"

definition is_exit :: "statement \<Rightarrow> bool" where
  "is_exit stmt = (stmt_type stmt = ReturnStatement \<or> stmt_type stmt = ThrowStatement)"

definition statements_after_exit :: "statement list \<Rightarrow> statement list" where
  "statements_after_exit body = drop 1 (dropWhile (\<lambda>stmt. \<not> is_exit stmt) body)"

lemma unreachable_in_True: "unreachable_in True body = map (\<lambda>s. loc_line (stmt_loc s)) body"
  by (induction body) auto

lemma unreachable_in_False:
  "unreachable_in False body = map (\<lambda>s. loc_line (stmt_loc s)) (statements_after_exit body)"
  by (induction body) (auto simp: statements_after_exit_def is_exit_def unreachable_in_True)

lemma visit_Function_bodies:
  "visit_Function n =
     concat (map (\<lambda>body. map (\<lambda>s. loc_line (stmt_loc s)) (statements_after_exit body))
       (function_body n))"
  by (cases n rule: function_body.cases) (simp_all add: unreachable_in_False)

lemma visit_Function_block_bodies:
  "concat (map visit_Function ast) =
     concat (map (\<lambda>body. map (\<lambda>s. loc_line (stmt_loc s)) (statements_after_exit body))
       (block_bodies ast))"
  by (induction ast) (simp_all add: block_bodies_def visit_Function_bodies)

lemma filter_unreachable_issues:
  "filter (\<lambda>i. dc_type i = unreachable) (map (unreachable_issue f) ls) =
     map (unreachable_issue f) ls"
  "filter (\<lambda>i. dc_type i = unreachable) (map (unused_var_issue f) vs) = []"
  "filter (\<lambda>i. dc_type i = unreachable) (map (empty_catch_issue f) cs) = []"
  by (induction ls, simp_all add: unreachable_issue_def)
     (induction vs, simp_all add: unused_var_issue_def,
      induction cs, simp_all add: empty_catch_issue_def)

lemma detectInFile_parsed:
  assumes "readFile w f = Some content"
      and "parse w content (isTypeScriptFile f) = Some ast"
  shows "detectInFile w f =
     map (unreachable_issue f) (concat (map visit_Function ast)) @
     map (unused_var_issue f) (concat (map visit_unused ast)) @
     map (empty_catch_issue f) (concat (map visit_CatchClause ast))"
  using assms
  by (simp add: detectInFile_def Let_def findUnreachableCode_def findUnusedVariables_def
        findEmptyCatchBlocks_def)

text \<open>
  \<open>/r/dead.js\<close> is a function \<open>check\<close> whose body is \<open>return true; console.log(x);\<close>
  on lines 2 and 3, and a call of \<open>check\<close>.
\<close>

definition unreachable_env :: env where
  "unreachable_env =
     demo_path_env
       \<lparr>fs_readFile := (\<lambda>p. if p = ''/r/dead.js'' then Some ''D'' else None),
        fs_existsSync := (\<lambda>p. p = ''/r/dead.js''),
        babel_parse := (\<lambda>code isTypeScript.
           if code = ''D''
           then Some [FunctionDeclaration (Some ''check'') (Some True) ''Program'' (Some 1)
                        [Statement ReturnStatement (Some 2) [],
                         Statement OtherStatement (Some 3) []],
                      Identifier ''check'' OtherParent,
                      Identifier ''x'' OtherParent,
                      OtherNode,
                      Identifier ''console'' (MemberExpression False False),
                      Identifier ''log'' (MemberExpression True False),
                      Identifier ''x'' OtherParent,
                      Identifier ''check'' OtherParent]
           else None)\<rparr>"

text \<open>
  C7. The claim that every statement following a \<open>return\<close> or \<open>throw\<close> at the same
  block-nesting level inside a function body is reported fails for the blocks nested in
  the body: \<open>findUnreachableCode\<close> walks \<open>body.body\<close> only. In a file that is read
  and parsed, the issues of kind \<open>unreachable\<close> are, function body by function body, one
  per statement of the body's own statement list that follows the first \<open>return\<close> or
  \<open>throw\<close> of that list, at the line of that statement. The body
  \<open>return true; console.log(x);\<close> gives exactly one, at the line of \<open>console.log\<close>.
\<close>

theorem unreachable_per_statement:
  assumes "readFile w f = Some content"
      and "parse w content (isTypeScriptFile f) = Some ast"
  shows "filter (\<lambda>i. dc_type i = unreachable) (detectInFile w f) =
           map (unreachable_issue f)
             (concat (map (\<lambda>body. map (\<lambda>s. loc_line (stmt_loc s)) (statements_after_exit body))
                (block_bodies ast)))"
proof -
  show ?thesis
    by (simp add: detectInFile_parsed[OF assms] filter_unreachable_issues
          visit_Function_block_bodies)
qed

theorem unreachable_per_statement_witness:
  "readFile unreachable_env ''/r/dead.js'' = Some ''D'' \<and>
   parse unreachable_env ''D'' (isTypeScriptFile ''/r/dead.js'') =
     Some [FunctionDeclaration (Some ''check'') (Some True) ''Program'' (Some 1)
             [Statement ReturnStatement (Some 2) [],
              Statement OtherStatement (Some 3) []],
           Identifier ''check'' OtherParent,
           Identifier ''x'' OtherParent,
           OtherNode,
           Identifier ''console'' (MemberExpression False False),
           Identifier ''log'' (MemberExpression True False),
           Identifier ''x'' OtherParent,
           Identifier ''check'' OtherParent] \<and>
   detectInFile unreachable_env ''/r/dead.js'' = [unreachable_issue ''/r/dead.js'' 3] \<and>
   filter (\<lambda>i. dc_type i = unreachable) (detectInFile unreachable_env ''/r/dead.js'') =
     [unreachable_issue ''/r/dead.js'' 3]"
proof -
  have r: "readFile unreachable_env ''/r/dead.js'' = Some ''D''" by code_simp
  have p: "parse unreachable_env ''D'' (isTypeScriptFile ''/r/dead.js'') =
     Some [FunctionDeclaration (Some ''check'') (Some True) ''Program'' (Some 1)
             [Statement ReturnStatement (Some 2) [],
              Statement OtherStatement (Some 3) []],
           Identifier ''check'' OtherParent,
           Identifier ''x'' OtherParent,
           OtherNode,
           Identifier ''console'' (MemberExpression False False),
           Identifier ''log'' (MemberExpression True False),
           Identifier ''x'' OtherParent,
           Identifier ''check'' OtherParent]"
    by code_simp
  have d: "detectInFile unreachable_env ''/r/dead.js'' = [unreachable_issue ''/r/dead.js'' 3]"
    by code_simp
  have "filter (\<lambda>i. dc_type i = unreachable) (detectInFile unreachable_env ''/r/dead.js'') =
     [unreachable_issue ''/r/dead.js'' 3]"
    using unreachable_per_statement[OF r p]
    by (simp add: block_bodies_def statements_after_exit_def is_exit_def loc_line_def)
  with r p d show ?thesis by blast
qed

text \<open>
  Every block of a function body: the body's own statement list and, recursively, the
  statement lists nested in its statements.
\<close>

fun blocks_in :: "statement \<Rightarrow> statement list list" where
  "blocks_in (Statement t l bs) = concat (map (\<lambda>b. b # concat (map blocks_in b)) bs)"

definition all_blocks :: "statement list \<Rightarrow> statement list list" where
  "all_blocks body = body # concat (map blocks_in body)"

text \<open>
  \<open>/r/n.js\<close> is a function \<open>pick\<close> whose body is
  \<open>if (c) { return 1; console.log(c); }\<close> on lines 2 to 5, and a call of \<open>pick\<close>: the
  statement on line 4 follows a \<open>return\<close> in its block, and nothing is reported.
\<close>

definition nested_return_env :: env where
  "nested_return_env =
     demo_path_env
       \<lparr>fs_readFile := (\<lambda>p. if p = ''/r/n.js'' then Some ''N'' else None),
        fs_existsSync := (\<lambda>p. p = ''/r/n.js''),
        babel_parse := (\<lambda>code isTypeScript.
           if code = ''N''
           then Some [FunctionDeclaration (Some ''pick'') (Some True) ''Program'' (Some 1)
                        [Statement OtherStatement (Some 2)
                           [[Statement ReturnStatement (Some 3) [],
                             Statement OtherStatement (Some 4) []]]],
                      Identifier ''pick'' OtherParent,
                      Identifier ''c'' OtherParent,
                      Identifier ''c'' OtherParent,
                      Identifier ''console'' (MemberExpression False False),
                      Identifier ''log'' (MemberExpression True False),
                      Identifier ''c'' OtherParent,
                      Identifier ''pick'' OtherParent]
           else None)\<rparr>"

theorem nested_block_not_scanned_counterexample:
  "readFile nested_return_env ''/r/n.js'' = Some ''N'' \<and>
   block_bodies (case parse nested_return_env ''N'' (isTypeScriptFile ''/r/n.js'') of
                   None \<Rightarrow> [] | Some ast \<Rightarrow> ast) =
     [[Statement OtherStatement (Some 2)
         [[Statement ReturnStatement (Some 3) [], Statement OtherStatement (Some 4) []]]]] \<and>
   all_blocks [Statement OtherStatement (Some 2)
         [[Statement ReturnStatement (Some 3) [], Statement OtherStatement (Some 4) []]]] =
     [[Statement OtherStatement (Some 2)
         [[Statement ReturnStatement (Some 3) [], Statement OtherStatement (Some 4) []]]],
      [Statement ReturnStatement (Some 3) [], Statement OtherStatement (Some 4) []]] \<and>
   statements_after_exit
     [Statement ReturnStatement (Some 3) [], Statement OtherStatement (Some 4) []] =
     [Statement OtherStatement (Some 4) []] \<and>
   detectInFile nested_return_env ''/r/n.js'' = []"
  by code_simp

text \<open>\<open>/r/fn.js\<close> is \<open>function unusedFunction() { return 'never called'; }\<close>.\<close>

definition unused_function_env :: env where
  "unused_function_env =
     demo_path_env
       \<lparr>fs_readFile := (\<lambda>p. if p = ''/r/fn.js'' then Some ''U'' else None),
        fs_existsSync := (\<lambda>p. p = ''/r/fn.js''),
        babel_parse := (\<lambda>code isTypeScript.
           if code = ''U''
           then Some [FunctionDeclaration (Some ''unusedFunction'') (Some False) ''Program'' (Some 1)
                        [Statement ReturnStatement (Some 2) []],
                      Identifier ''unusedFunction'' OtherParent,
                      OtherNode]
           else None)\<rparr>"

lemma issue_types:
  "dc_type (unreachable_issue f l) = unreachable"
  "dc_type (unused_var_issue f v) = unused_var"
  "dc_type (empty_catch_issue f l) = empty_catch"
  by (simp_all add: unreachable_issue_def unused_var_issue_def empty_catch_issue_def)

lemma detectInFile_types:
  "dc_type ` set (detectInFile w f) \<subseteq> {unreachable, unused_var, empty_catch}"
proof (cases "readFile w f")
  case None
  then show ?thesis by (simp add: detectInFile_def)
next
  case content: (Some content)
  show ?thesis
  proof (cases "parse w content (isTypeScriptFile f)")
    case None
    then show ?thesis
      by (simp add: detectInFile_def content findUnreachableCode_def)
  next
    case (Some ast)
    show ?thesis
      by (auto simp: detectInFile_parsed[OF content Some] issue_types)
  qed
qed

text \<open>
  C4. The claim that a top-level function declaration without references is reported
  with the kind \<open>unused-function\<close> fails: \<open>detectInFile\<close> gives every item of
  \<open>findUnusedVariables\<close> the kind \<open>unused-var\<close>. In a file that is read and parsed,
  every function declaration directly under the program whose binding is not referenced
  is reported as an issue of kind \<open>unused-var\<close>, described as an unused variable, and no
  issue of kind \<open>unused-function\<close> is ever reported.
\<close>

theorem unused_function_reported_as_unused_var:
  assumes "readFile w f = Some content"
      and "parse w content (isTypeScriptFile f) = Some ast"
      and "FunctionDeclaration (Some name) (Some False) ''Program'' loc body \<in> set ast"
  shows "unused_var_issue f (name, loc_line loc) \<in> set (detectInFile w f) \<and>
         unused_function \<notin> dc_type ` set (detectInFile w f)"
proof -
  have "(name, loc_line loc) \<in>
      set (visit_unused (FunctionDeclaration (Some name) (Some False) ''Program'' loc body))"
    by simp
  then have "(name, loc_line loc) \<in> set (concat (map visit_unused ast))"
    using assms(3) by (auto simp del: visit_unused.simps)
  then have "unused_var_issue f (name, loc_line loc) \<in> set (detectInFile w f)"
    by (simp add: detectInFile_parsed[OF assms(1,2)])
  moreover have "unused_function \<notin> dc_type ` set (detectInFile w f)"
    using detectInFile_types[of w f] by auto
  ultimately show ?thesis by simp
qed

theorem unused_function_reported_as_unused_var_witness:
  "readFile unused_function_env ''/r/fn.js'' = Some ''U'' \<and>
   parse unused_function_env ''U'' (isTypeScriptFile ''/r/fn.js'') =
     Some [FunctionDeclaration (Some ''unusedFunction'') (Some False) ''Program'' (Some 1)
             [Statement ReturnStatement (Some 2) []],
           Identifier ''unusedFunction'' OtherParent,
           OtherNode] \<and>
   unused_var_issue ''/r/fn.js'' (''unusedFunction'', 1)
     \<in> set (detectInFile unused_function_env ''/r/fn.js'') \<and>
   unused_function \<notin> dc_type ` set (detectInFile unused_function_env ''/r/fn.js'')"
proof -
  have r: "readFile unused_function_env ''/r/fn.js'' = Some ''U''" by code_simp
  have p: "parse unused_function_env ''U'' (isTypeScriptFile ''/r/fn.js'') =
     Some [FunctionDeclaration (Some ''unusedFunction'') (Some False) ''Program'' (Some 1)
             [Statement ReturnStatement (Some 2) []],
           Identifier ''unusedFunction'' OtherParent,
           OtherNode]"
    by code_simp
  have m: "FunctionDeclaration (Some ''unusedFunction'') (Some False) ''Program'' (Some 1)
             [Statement ReturnStatement (Some 2) []]
           \<in> set [FunctionDeclaration (Some ''unusedFunction'') (Some False) ''Program'' (Some 1)
                     [Statement ReturnStatement (Some 2) []],
                   Identifier ''unusedFunction'' OtherParent,
                   OtherNode]"
    by simp
  from unused_function_reported_as_unused_var[OF r p m] r p show ?thesis
    by (simp add: loc_line_def)
qed

theorem unused_function_kind_counterexample:
  "detectInFile unused_function_env ''/r/fn.js'' =
     [\<lparr>dc_file = ''/r/fn.js'', dc_line = 1, dc_type = unused_var,
       dc_description = ''Unused variable '' @ [CHR 0x27] @ ''unusedFunction'' @ [CHR 0x27]\<rparr>] \<and>
   unused_var \<noteq> unused_function"
proof -
  have "detectInFile unused_function_env ''/r/fn.js'' =
     [\<lparr>dc_file = ''/r/fn.js'', dc_line = 1, dc_type = unused_var,
       dc_description = ''Unused variable '' @ [CHR 0x27] @ ''unusedFunction'' @ [CHR 0x27]\<rparr>]"
    by code_simp
  then show ?thesis by simp
qed

section \<open>Files that cannot be read or parsed\<close>

definition fails_to_parse :: "env \<Rightarrow> string \<Rightarrow> bool" where
  "fails_to_parse w f =
     (case readFile w f of
        None \<Rightarrow> True
      | Some content \<Rightarrow> parse w content (isTypeScriptFile f) = None)"

lemma findInFile_failed: "fails_to_parse w f \<Longrightarrow> findInFile w f = []"
  by (auto simp: fails_to_parse_def findInFile_def extractImports_def split: option.splits)

lemma detectInFile_failed: "fails_to_parse w f \<Longrightarrow> detectInFile w f = []"
  by (auto simp: fails_to_parse_def detectInFile_def findUnreachableCode_def split: option.splits)

text \<open>
  \<open>/r/bad.js\<close> does not parse; \<open>/r/f.js\<close> has an unused import and \<open>/r/dead.js\<close> an
  unused import and a statement after a \<open>throw\<close>.
\<close>

definition broken_file_env :: env where
  "broken_file_env =
     demo_path_env
       \<lparr>fs_readFile := (\<lambda>p. if p = ''/r/f.js'' then Some ''F''
                              else if p = ''/r/bad.js'' then Some ''function ( {''
                              else if p = ''/r/dead.js'' then Some ''D''
                              else None),
        fs_existsSync := (\<lambda>p. p = ''/r/f.js'' \<or> p = ''/r/bad.js'' \<or> p = ''/r/dead.js''),
        babel_parse := (\<lambda>code isTypeScript.
           if code = ''F''
           then Some [ImportDeclaration [ImportDefaultSpecifier ''moment''] ''moment'' (Some 1),
                      Identifier ''moment'' ImportDefaultSpecifierParent]
           else if code = ''D''
           then Some [Function (Some [Statement ThrowStatement (Some 2) [],
                                     Statement OtherStatement (Some 3) []]),
                      ImportDeclaration [ImportSpecifier ''g''] ''./f'' (Some 5),
                      Identifier ''g'' ImportSpecifierParent]
           else None)\<rparr>"

text \<open>
  C9. A file that cannot be read or parsed gives no issue in either classifier, and in
  a list of files the two classifiers return the issues of the files before it followed
  by the issues of the files after it: the failure is caught in \<open>findInFile\<close> and in
  \<open>detectInFile\<close> and stops nothing.
\<close>

theorem parse_failure_skipped:
  assumes "fails_to_parse w f"
  shows "findInFile w f = [] \<and> detectInFile w f = [] \<and>
         findInFiles w (before @ f # after) = findInFiles w before @ findInFiles w after \<and>
         detectInFiles w (before @ f # after) = detectInFiles w before @ detectInFiles w after"
  using assms
  by (simp add: findInFiles_def detectInFiles_def findInFile_failed detectInFile_failed)

theorem parse_failure_skipped_witness:
  "fails_to_parse broken_file_env ''/r/bad.js'' \<and>
   findInFile broken_file_env ''/r/bad.js'' = [] \<and>
   detectInFile broken_file_env ''/r/bad.js'' = [] \<and>
   findInFiles broken_file_env ([''/r/f.js''] @ ''/r/bad.js'' # [''/r/dead.js'']) =
     [\<lparr>ui_file = ''/r/f.js'', ui_line = 1, ui_importName = ''moment'', ui_from = ''moment''\<rparr>,
      \<lparr>ui_file = ''/r/dead.js'', ui_line = 5, ui_importName = ''g'', ui_from = ''./f''\<rparr>] \<and>
   detectInFiles broken_file_env ([''/r/f.js''] @ ''/r/bad.js'' # [''/r/dead.js'']) =
     [unreachable_issue ''/r/dead.js'' 3]"
proof -
  have h: "fails_to_parse broken_file_env ''/r/bad.js''" by code_simp
  have a: "findInFiles broken_file_env [''/r/f.js''] @ findInFiles broken_file_env [''/r/dead.js''] =
     [\<lparr>ui_file = ''/r/f.js'', ui_line = 1, ui_importName = ''moment'', ui_from = ''moment''\<rparr>,
      \<lparr>ui_file = ''/r/dead.js'', ui_line = 5, ui_importName = ''g'', ui_from = ''./f''\<rparr>]"
    by code_simp
  have b: "detectInFiles broken_file_env [''/r/f.js''] @ detectInFiles broken_file_env [''/r/dead.js''] =
     [unreachable_issue ''/r/dead.js'' 3]"
    by code_simp
  from parse_failure_skipped[OF h, of "[''/r/f.js'']" "[''/r/dead.js'']"] h a b
  show ?thesis by simp
qed

section \<open>Unused files and entry points\<close>

text \<open>\<open>includes\<close> is containment of a substring.\<close>

lemma str_includes_iff: "str_includes s needle \<longleftrightarrow> (\<exists>p q. s = p @ needle @ q)"
proof (induction s)
  case Nil
  then show ?case by auto
next
  case (Cons c cs)
  have "(\<exists>p q. c # cs = p @ needle @ q) \<longleftrightarrow>
        (\<exists>q. c # cs = needle @ q) \<or> (\<exists>p q. cs = p @ needle @ q)"
    by (auto simp: Cons_eq_append_conv)
  then show ?case using Cons by (simp add: prefix_def)
qed

lemma getUnusedFiles_excludes:
  assumes "entry \<in> set eps" and "str_includes filePath entry"
  shows "filePath \<notin> set (getUnusedFiles g eps)"
  using assms by (auto simp: getUnusedFiles_def list_ex_iff split: if_splits)

lemma findUnusedFiles_paths:
  "map uf_path (findUnusedFiles w targetPath) =
     getUnusedFiles
       (build w new_GraphBuilder targetPath
          (Some (getFiles w targetPath [''**/*.{js,jsx,ts,tsx,vue,svelte}''] default_exclude)))
       entryPoints"
  by (simp add: findUnusedFiles_def Let_def comp_def)

text \<open>\<open>/r\<close> holds \<open>index.ts\<close> and \<open>util.ts\<close>; neither imports anything.\<close>

definition index_env :: env where
  "index_env =
     demo_path_env
       \<lparr>fs_readFile := (\<lambda>p. if p = ''/r/index.ts'' then Some ''I''
                              else if p = ''/r/util.ts'' then Some ''U'' else None),
        fs_existsSync := (\<lambda>p. p = ''/r/index.ts'' \<or> p = ''/r/util.ts''),
        glob := (\<lambda>pattern cwd ignore.
           if cwd = ''/r'' then [''/r/index.ts'', ''/r/util.ts''] else []),
        babel_parse := (\<lambda>code isTypeScript. Some [])\<rparr>"

text \<open>
  C8. A file whose path contains one of the entry-point fragments of \<open>findUnusedFiles\<close>
  (\<open>index\<close>, \<open>main\<close>, \<open>app\<close>, \<open>server\<close>, \<open>config\<close>, \<open>test\<close>, \<open>spec\<close>, the build-tool
  configuration names) is never in the unused-file output, whatever its inbound edges:
  \<open>index.ts\<close>, imported by no file, is not reported.
\<close>

theorem entry_points_never_unused:
  assumes "entry \<in> set entryPoints" and "str_includes filePath entry"
  shows "filePath \<notin> uf_path ` set (findUnusedFiles w targetPath)"
proof -
  have "uf_path ` set (findUnusedFiles w targetPath) =
      set (map uf_path (findUnusedFiles w targetPath))"
    by simp
  then show ?thesis
    unfolding findUnusedFiles_paths
    using getUnusedFiles_excludes[OF assms] by simp
qed

theorem entry_points_never_unused_witness:
  "''index'' \<in> set entryPoints \<and> str_includes ''/r/index.ts'' ''index'' \<and>
   ''/r/index.ts'' \<notin> uf_path ` set (findUnusedFiles index_env ''/r'') \<and>
   nodes_get (build index_env new_GraphBuilder ''/r'' (Some [''/r/index.ts'', ''/r/util.ts'']))
     ''/r/index.ts'' =
     Some \<lparr>node_path = ''/r/index.ts'', node_imports = [], node_importedBy = [],
           node_exports = []\<rparr> \<and>
   findUnusedFiles index_env ''/r'' =
     [\<lparr>uf_path = ''/r/util.ts'', uf_reason = ''Never imported by any file''\<rparr>]"
proof -
  have e: "''index'' \<in> set entryPoints" by code_simp
  have i: "str_includes ''/r/index.ts'' ''index''" by code_simp
  have n: "nodes_get (build index_env new_GraphBuilder ''/r'' (Some [''/r/index.ts'', ''/r/util.ts'']))
     ''/r/index.ts'' =
     Some \<lparr>node_path = ''/r/index.ts'', node_imports = [], node_importedBy = [],
           node_exports = []\<rparr>"
    by code_simp
  have v: "findUnusedFiles index_env ''/r'' =
     [\<lparr>uf_path = ''/r/util.ts'', uf_reason = ''Never imported by any file''\<rparr>]"
    by code_simp
  from entry_points_never_unused[OF e i, of index_env "''/r''"] e i n v
  show ?thesis by blast
qed

section \<open>Dependencies of the manifest\<close>

text \<open>
  The package roots that \<open>analyzePackageJson\<close> collects from the imports of the project
  and the merged entries of \<open>dependencies\<close> and \<open>devDependencies\<close>.
\<close>

definition used_roots :: "env \<Rightarrow> string \<Rightarrow> string list" where
  "used_roots w targetPath =
     foldl (collect_file w) []
       (getFiles w targetPath [''**/*.{js,jsx,ts,tsx}''] default_exclude)"

definition declared :: "package_json \<Rightarrow> (string \<times> string) list" where
  "declared pkg = spread (dependencies pkg) (devDependencies pkg)"

lemma set_Object_entries: "set (Object_entries obj) = set obj"
  by (auto simp: Object_entries_def)

lemma unused_names_list:
  "map di_name (concat (map (\<lambda>(depName, version).
       if A depName
       then (if B depName
             then [\<lparr>di_name = depName, di_type = unused, di_installedVersion = Some version\<rparr>]
             else [])
       else []) xs)) =
   filter (\<lambda>depName. A depName \<and> B depName) (map fst xs)"
  by (induction xs) auto

lemma unused_names:
  "di_name ` set (concat (map (\<lambda>(depName, version).
       if A depName
       then (if B depName
             then [\<lparr>di_name = depName, di_type = unused, di_installedVersion = Some version\<rparr>]
             else [])
       else []) xs)) =
   {depName. depName \<in> fst ` set xs \<and> A depName \<and> B depName}"
  using arg_cong[OF unused_names_list[of A B xs], of set] by auto

lemma missing_names:
  "di_name ` set (concat (map (\<lambda>importedPkg.
       if A importedPkg
       then [\<lparr>di_name = importedPkg, di_type = missing, di_installedVersion = None\<rparr>]
       else []) xs)) =
   {importedPkg. importedPkg \<in> set xs \<and> A importedPkg}"
  by (induction xs) auto

lemma analyzePackageJson_unused:
  assumes "getPackageJson w targetPath = Some pkg"
  shows "di_name ` set (unusedDependencies (analyzePackageJson w targetPath)) =
           {depName. depName \<in> fst ` set (declared pkg) \<and>
                     depName \<notin> set (used_roots w targetPath) \<and>
                     \<not> list_ex (\<lambda>skip. str_includes depName skip) skipList}"
proof -
  have "unusedDependencies (analyzePackageJson w targetPath) =
      concat (map (\<lambda>(depName, version).
        if depName \<notin> set (used_roots w targetPath)
        then (if \<not> list_ex (\<lambda>skip. str_includes depName skip) skipList
              then [\<lparr>di_name = depName, di_type = unused, di_installedVersion = Some version\<rparr>]
              else [])
        else []) (Object_entries (declared pkg)))"
    using assms by (simp add: analyzePackageJson_def Let_def used_roots_def declared_def)
  then show ?thesis
    by (simp only: unused_names set_Object_entries)
qed

lemma analyzePackageJson_missing:
  assumes "getPackageJson w targetPath = Some pkg"
  shows "di_name ` set (missingDependencies (analyzePackageJson w targetPath)) =
           {importedPkg. importedPkg \<in> set (used_roots w targetPath) \<and>
                         \<not> truthy_property (declared pkg) importedPkg}"
proof -
  have "missingDependencies (analyzePackageJson w targetPath) =
      concat (map (\<lambda>importedPkg.
        if \<not> truthy_property (declared pkg) importedPkg
        then [\<lparr>di_name = importedPkg, di_type = missing, di_installedVersion = None\<rparr>]
        else []) (used_roots w targetPath))"
    using assms by (simp add: analyzePackageJson_def Let_def used_roots_def declared_def)
  then show ?thesis
    by (simp only: missing_names)
qed

lemma analyzePackageJson_no_manifest:
  assumes "getPackageJson w targetPath = None"
  shows "analyzePackageJson w targetPath =
           \<lparr>unusedDependencies = [], missingDependencies = [], unusedScripts = []\<rparr>"
  using assms by (simp add: analyzePackageJson_def)

text \<open>
  \<open>package.json\<close> declares \<open>axios\<close>, \<open>jest-axe\<close>, \<open>my-vite-plugin\<close> and \<open>typescript\<close>; no
  file imports anything.
\<close>

definition tooling_env :: env where
  "tooling_env =
     demo_path_env
       \<lparr>fs_readFile := (\<lambda>p. if p = ''/r/package.json'' then Some ''P'' else None),
        fs_existsSync := (\<lambda>p. p = ''/r/package.json''),
        JSON_parse := (\<lambda>content.
           if content = ''P''
           then Some \<lparr>dependencies = Some [(''axios'', ''1.0.0''), (''jest-axe'', ''8.0.0'')],
                      devDependencies = Some [(''my-vite-plugin'', ''1.2.3''),
                                              (''typescript'', ''5.4.0'')],
                      scripts = None\<rparr>
           else None)\<rparr>"

text \<open>
  C10. The skip list exempts by containment: a declared dependency whose name contains
  an entry of the skip list anywhere is never reported as unused. \<open>jest-axe\<close> and
  \<open>my-vite-plugin\<close>, declared and never imported, are not reported.
\<close>

theorem skip_list_by_substring:
  assumes "skip \<in> set skipList" and "str_includes depName skip"
  shows "depName \<notin> di_name ` set (unusedDependencies (analyzePackageJson w targetPath))"
proof (cases "getPackageJson w targetPath")
  case None
  then show ?thesis by (simp add: analyzePackageJson_no_manifest)
next
  case (Some pkg)
  have "list_ex (\<lambda>skip. str_includes depName skip) skipList"
    using assms by (auto simp: list_ex_iff)
  then show ?thesis by (simp add: analyzePackageJson_unused[OF Some])
qed

theorem skip_list_by_substring_witness:
  "''jest'' \<in> set skipList \<and> str_includes ''jest-axe'' ''jest'' \<and>
   ''jest-axe'' \<notin> di_name ` set (unusedDependencies (analyzePackageJson tooling_env ''/r'')) \<and>
   ''vite'' \<in> set skipList \<and> str_includes ''my-vite-plugin'' ''vite'' \<and>
   ''my-vite-plugin'' \<notin> di_name ` set (unusedDependencies (analyzePackageJson tooling_env ''/r'')) \<and>
   unusedDependencies (analyzePackageJson tooling_env ''/r'') =
     [\<lparr>di_name = ''axios'', di_type = unused, di_installedVersion = Some ''1.0.0''\<rparr>]"
proof -
  have j: "''jest'' \<in> set skipList" "str_includes ''jest-axe'' ''jest''" by code_simp+
  have v: "''vite'' \<in> set skipList" "str_includes ''my-vite-plugin'' ''vite''" by code_simp+
  have u: "unusedDependencies (analyzePackageJson tooling_env ''/r'') =
     [\<lparr>di_name = ''axios'', di_type = unused, di_installedVersion = Some ''1.0.0''\<rparr>]"
    by code_simp
  from skip_list_by_substring[OF j, of tooling_env "''/r''"]
       skip_list_by_substring[OF v, of tooling_env "''/r''"] j v u
  show ?thesis by blast
qed

text \<open>
  \<open>package.json\<close> declares \<open>axios\<close> only; \<open>/r/a.js\<close> is
  \<open>import { format } from 'date-fns'; import c from 'constructor';\<close>
\<close>

definition axios_env :: env where
  "axios_env =
     demo_path_env
       \<lparr>fs_readFile := (\<lambda>p. if p = ''/r/package.json'' then Some ''P''
                              else if p = ''/r/a.js'' then Some ''A'' else None),
        fs_existsSync := (\<lambda>p. p = ''/r/package.json'' \<or> p = ''/r/a.js''),
        glob := (\<lambda>pattern cwd ignore. if cwd = ''/r'' then [''/r/a.js''] else []),
        babel_parse := (\<lambda>code isTypeScript.
           if code = ''A''
           then Some [ImportDeclaration [ImportSpecifier ''format''] ''date-fns'' (Some 1),
                      ImportDeclaration [ImportDefaultSpecifier ''c''] ''constructor'' (Some 2)]
           else None),
        JSON_parse := (\<lambda>content.
           if content = ''P''
           then Some \<lparr>dependencies = Some [(''axios'', ''1.0.0'')],
                      devDependencies = None, scripts = None\<rparr>
           else None)\<rparr>"

text \<open>
  C5. On the manifest declaring only \<open>axios\<close>, with a file importing \<open>date-fns\<close> and
  \<open>constructor\<close>, the unused list is \<open>axios\<close> and the missing list is \<open>date-fns\<close> alone:
  \<open>constructor\<close> is used and not declared, and is not reported, because the test
  \<open>!dependencies[importedPkg]\<close> reads the property that every object inherits.
\<close>

theorem missing_skips_prototype_names:
  "used_roots axios_env ''/r'' = [''date-fns'', ''constructor''] \<and>
   declared \<lparr>dependencies = Some [(''axios'', ''1.0.0'')], devDependencies = None,
             scripts = None\<rparr> = [(''axios'', ''1.0.0'')] \<and>
   analyzePackageJson axios_env ''/r'' =
     \<lparr>unusedDependencies =
        [\<lparr>di_name = ''axios'', di_type = unused, di_installedVersion = Some ''1.0.0''\<rparr>],
      missingDependencies =
        [\<lparr>di_name = ''date-fns'', di_type = missing, di_installedVersion = None\<rparr>],
      unusedScripts = []\<rparr>"
  by code_simp

end
